theory Spec2Isabelle
  imports Complex_Main "HOL-Library.Word"
begin

unbundle bit_operations_syntax

section \<open>Data model\<close>

text \<open>
  The exceptions of \<open>process.py\<close> that the model tracks, as values.
  \<open>FileNotFoundError\<close>, \<open>IsADirectoryError\<close> and \<open>PermissionError\<close> are subclasses of
  \<open>OSError\<close>, which stands for every other operating-system error.
\<close>

datatype error =
    ZeroDivisionError
  | ValueError
  | OverflowError
  | FileNotFoundError
  | IsADirectoryError
  | PermissionError
  | CalledProcessError
  | OSError

text \<open>
  A box is the tuple \<open>(x1, y1, x2, y2)\<close> of Python integers that \<open>detect_text_boxes\<close>
  appends and \<open>blur_or_black\<close> unpacks.
\<close>

type_synonym box = "int \<times> int \<times> int \<times> int"

text \<open>
  A frame is the numpy array \<open>frame\<close>: its shape \<open>(height, width, channels)\<close> and its
  bytes, addressed as \<open>frame[y, x, c]\<close>. Only indices inside the shape are ever read or
  written by the program.
\<close>

type_synonym pixels = "int \<Rightarrow> int \<Rightarrow> nat \<Rightarrow> 8 word"

record frame =
  height :: nat
  width :: nat
  channels :: nat
  px :: pixels

text \<open>\<open>--mode\<close> has \<open>choices=["blur", "black"]\<close>.\<close>

datatype mode = Blur | Black

section \<open>The redactor: \<open>blur_or_black\<close>\<close>

text \<open>\<open>max(0, min(n - 1, v))\<close>, the clamp of lines 62-65 and 105-108.\<close>

definition clamp :: "int \<Rightarrow> int \<Rightarrow> int" where
  "clamp n v = max 0 (min (n - 1) v)"

text \<open>
  Lines 74-75: \<open>ksize = max(15, (x2 - x1) // 3 | 1)\<close>, where \<open>//\<close> binds tighter
  than \<open>|\<close>, then \<open>ksize = ksize if ksize % 2 == 1 else ksize + 1\<close>.
\<close>

definition ksize_of :: "int \<Rightarrow> int" where
  "ksize_of region_width =
     (let ksize = max 15 ((region_width div 3) OR 1)
      in if ksize mod 2 = 1 then ksize else ksize + 1)"

text \<open>
  \<open>roi = frame[y1:y2, x1:x2]\<close>: the view of the rows \<open>y1 \<le> y < y2\<close> and the columns
  \<open>x1 \<le> x < x2\<close> (Python slices exclude their upper bound), re-indexed from 0.
\<close>

definition roi_of :: "frame \<Rightarrow> int \<Rightarrow> int \<Rightarrow> int \<Rightarrow> int \<Rightarrow> frame" where
  "roi_of f y1 y2 x1 x2 =
     \<lparr>height = nat (y2 - y1), width = nat (x2 - x1), channels = channels f,
      px = (\<lambda>y x c. px f (y + y1) (x + x1) c)\<rparr>"

text \<open>
  The pixel \<open>(y, x)\<close> lies in the slice \<open>[y1:y2, x1:x2]\<close>. The bounds that
  \<open>blur_or_black\<close> passes are clamped, so they lie within the shape and the slice is
  the plain half-open rectangle.
\<close>

definition in_slice :: "int \<Rightarrow> int \<Rightarrow> int \<Rightarrow> int \<Rightarrow> int \<Rightarrow> int \<Rightarrow> bool" where
  "in_slice y1 y2 x1 x2 y x \<longleftrightarrow> y1 \<le> y \<and> y < y2 \<and> x1 \<le> x \<and> x < x2"

text \<open>\<open>frame[y1:y2, x1:x2] = blurred\<close>, for an array \<open>blurred\<close> of the slice's shape.\<close>

definition assign_slice :: "frame \<Rightarrow> int \<Rightarrow> int \<Rightarrow> int \<Rightarrow> int \<Rightarrow> pixels \<Rightarrow> frame" where
  "assign_slice f y1 y2 x1 x2 src =
     f\<lparr>px := (\<lambda>y x c. if in_slice y1 y2 x1 x2 y x then src (y - y1) (x - x1) c
                       else px f y x c)\<rparr>"

text \<open>\<open>frame[y1:y2, x1:x2] = 0\<close>: the scalar is broadcast over the slice and its channels.\<close>

definition fill_slice :: "frame \<Rightarrow> int \<Rightarrow> int \<Rightarrow> int \<Rightarrow> int \<Rightarrow> 8 word \<Rightarrow> frame" where
  "fill_slice f y1 y2 x1 x2 v =
     f\<lparr>px := (\<lambda>y x c. if in_slice y1 y2 x1 x2 y x then v else px f y x c)\<rparr>"

text \<open>
  \<open>blur_or_black(frame, boxes, mode)\<close>, lines 57-81. The loop over \<open>boxes\<close> is the
  recursion; \<open>continue\<close> is the recursive call on the unchanged frame.
  \<open>cv2.GaussianBlur\<close> is an external collaborator whose result has the size and type
  of its source: the parameter \<open>gblur\<close> gives the bytes of that result from the region
  and the kernel size.
\<close>

fun blur_or_black :: "(frame \<Rightarrow> int \<Rightarrow> pixels) \<Rightarrow> frame \<Rightarrow> box list \<Rightarrow> mode \<Rightarrow> frame" where
  "blur_or_black gblur f [] m = f"
| "blur_or_black gblur f ((x1, y1, x2, y2) # boxes) m =
     (let h = int (height f); w = int (width f);
          x1 = clamp w x1; x2 = clamp w x2;
          y1 = clamp h y1; y2 = clamp h y2
      in if x2 \<le> x1 \<or> y2 \<le> y1 then blur_or_black gblur f boxes m
         else let roi = roi_of f y1 y2 x1 x2
              in (case m of
                    Blur \<Rightarrow>
                      let blurred = gblur roi (ksize_of (x2 - x1))
                      in blur_or_black gblur (assign_slice f y1 y2 x1 x2 blurred) boxes m
                  | Black \<Rightarrow> blur_or_black gblur (fill_slice f y1 y2 x1 x2 0) boxes m))"

section \<open>The detector adapter: \<open>detect_text_boxes\<close>\<close>

text \<open>
  A Python or numpy number: a finite value, an infinity or NaN. Finite floats and
  integers are the rationals they denote; \<open>float\<close>, the type of \<open>--conf-thresh\<close>,
  accepts \<open>nan\<close> and \<open>inf\<close> too.
\<close>

datatype pyfloat = Finite rat | PosInf | NegInf | NaN

text \<open>
  The comparison \<open>a < b\<close> of IEEE 754: false whenever an operand is NaN.
\<close>

fun float_lt :: "pyfloat \<Rightarrow> pyfloat \<Rightarrow> bool" where
  "float_lt (Finite a) (Finite b) = (a < b)"
| "float_lt (Finite a) PosInf = True"
| "float_lt NegInf (Finite b) = True"
| "float_lt NegInf PosInf = True"
| "float_lt _ _ = False"

text \<open>
  One result of \<open>reader.readtext(frame, detail=1)\<close>: \<open>(bbox, text, conf)\<close>, where
  \<open>bbox\<close> is a sequence of points.
\<close>

type_synonym point = "pyfloat \<times> pyfloat"
type_synonym detection = "point list \<times> string \<times> pyfloat"

text \<open>
  Python's \<open>int(v)\<close> on a number: truncation towards zero; \<open>OverflowError\<close> on an
  infinity and \<open>ValueError\<close> on NaN.
\<close>

definition py_trunc :: "rat \<Rightarrow> int" where
  "py_trunc v = (if 0 \<le> v then \<lfloor>v\<rfloor> else \<lceil>v\<rceil>)"

fun py_int :: "pyfloat \<Rightarrow> error + int" where
  "py_int (Finite v) = Inr (py_trunc v)"
| "py_int PosInf = Inl OverflowError"
| "py_int NegInf = Inl OverflowError"
| "py_int NaN = Inl ValueError"

text \<open>
  The list comprehension \<open>[int(v) for v in vs]\<close>: the first \<open>int\<close> that raises ends it.
\<close>

fun int_all :: "pyfloat list \<Rightarrow> error + int list" where
  "int_all [] = Inr []"
| "int_all (v # vs) =
     (case py_int v of
        Inl e \<Rightarrow> Inl e
      | Inr i \<Rightarrow> (case int_all vs of Inl e \<Rightarrow> Inl e | Inr rest \<Rightarrow> Inr (i # rest)))"

text \<open>Python's \<open>min(xs)\<close> and \<open>max(xs)\<close>: \<open>ValueError\<close> on an empty sequence.\<close>

definition py_min :: "int list \<Rightarrow> error + int" where
  "py_min xs = (case xs of [] \<Rightarrow> Inl ValueError | x # rest \<Rightarrow> Inr (fold min rest x))"

definition py_max :: "int list \<Rightarrow> error + int" where
  "py_max xs = (case xs of [] \<Rightarrow> Inl ValueError | x # rest \<Rightarrow> Inr (fold max rest x))"

text \<open>
  The loop of lines 94-115 over \<open>results\<close>, with the list \<open>boxes\<close> built so far.
  Each \<open>continue\<close> is the recursive call with \<open>boxes\<close> unchanged. Lines 99-102 run in
  the source's order: the comprehension for \<open>xs\<close>, the one for \<open>ys\<close>, then
  \<open>min(xs)\<close>, \<open>max(xs)\<close>, \<open>min(ys)\<close> and \<open>max(ys)\<close>.
\<close>

fun detect_loop ::
  "int \<Rightarrow> int \<Rightarrow> pyfloat \<Rightarrow> detection list \<Rightarrow> box list \<Rightarrow> error + box list" where
  "detect_loop h w conf_thresh [] boxes = Inr boxes"
| "detect_loop h w conf_thresh ((bbox, text, conf) # results) boxes =
     (if float_lt conf conf_thresh then detect_loop h w conf_thresh results boxes
      else
        (case int_all (map fst bbox) of Inl e \<Rightarrow> Inl e | Inr xs \<Rightarrow>
        (case int_all (map snd bbox) of Inl e \<Rightarrow> Inl e | Inr ys \<Rightarrow>
        (case py_min xs of Inl e \<Rightarrow> Inl e | Inr x1 \<Rightarrow>
        (case py_max xs of Inl e \<Rightarrow> Inl e | Inr x2 \<Rightarrow>
        (case py_min ys of Inl e \<Rightarrow> Inl e | Inr y1 \<Rightarrow>
        (case py_max ys of Inl e \<Rightarrow> Inl e | Inr y2 \<Rightarrow>
          (let x1 = clamp w x1; x2 = clamp w x2;
               y1 = clamp h y1; y2 = clamp h y2
           in if x2 \<le> x1 \<or> y2 \<le> y1 then detect_loop h w conf_thresh results boxes
              else let min_w = 10; min_h = 10
                   in if (x2 - x1) < min_w \<or> (y2 - y1) < min_h
                      then detect_loop h w conf_thresh results boxes
                      else detect_loop h w conf_thresh results
                             (boxes @ [(x1, y1, x2, y2)])))))))))"

text \<open>
  \<open>detect_text_boxes(frame, reader, band_ratio, conf_thresh)\<close>, lines 84-117. The
  parameter \<open>reader\<close> is \<open>reader.readtext\<close>, the localization collaborator;
  \<open>band_ratio\<close> is ignored, as in the source.
\<close>

definition detect_text_boxes ::
  "frame \<Rightarrow> (frame \<Rightarrow> detection list) \<Rightarrow> pyfloat \<Rightarrow> pyfloat \<Rightarrow> error + box list" where
  "detect_text_boxes f reader band_ratio conf_thresh =
     (let h = int (height f); w = int (width f);
          results = reader f
      in detect_loop h w conf_thresh results [])"

section \<open>The frame loop of \<open>main\<close>\<close>

text \<open>
  The parsed command line, \<open>args\<close> (\<open>args.input\<close> and \<open>args.output\<close> are the fields
  \<open>input_file\<close> and \<open>output_file\<close>).
\<close>

record args =
  input_file :: string
  output_file :: string
  mode :: mode
  band_ratio :: pyfloat
  detect_every :: int
  conf_thresh :: pyfloat
  gpu :: bool

text \<open>
  The variables of the loop of lines 183-217, together with what the loop has done to
  its collaborators so far: the frames given to \<open>writer.write\<close>, in order, and the
  frame indices at which \<open>reader.readtext\<close> has been invoked.
\<close>

record loop_state =
  frame_idx :: int
  last_boxes :: "box list"
  empty_streak :: int
  written :: "frame list"
  ocr_calls :: "int list"

text \<open>Lines 183-185.\<close>

definition init_state :: loop_state where
  "init_state =
     \<lparr>frame_idx = 0, last_boxes = [], empty_streak = 0, written = [], ocr_calls = []\<rparr>"

text \<open>
  Lines 194-212, the update of the region cache on one frame. The result is the
  exception raised, if any, and the state reached: \<open>frame_idx % args.detect_every\<close>
  raises \<open>ZeroDivisionError\<close> for a zero divisor, before anything else happens, and an
  exception of \<open>detect_text_boxes\<close> propagates after the collaborator was invoked.
\<close>

definition cache_update ::
  "(frame \<Rightarrow> detection list) \<Rightarrow> args \<Rightarrow> frame \<Rightarrow> loop_state \<Rightarrow> error option \<times> loop_state" where
  "cache_update reader a f s =
     (if detect_every a = 0 then (Some ZeroDivisionError, s)
      else if frame_idx s mod detect_every a = 0 then
        (let s = s\<lparr>ocr_calls := ocr_calls s @ [frame_idx s]\<rparr>
         in case detect_text_boxes f reader (band_ratio a) (conf_thresh a) of
              Inl e \<Rightarrow> (Some e, s)
            | Inr new_boxes \<Rightarrow>
                if new_boxes \<noteq> [] then
                  (None, s\<lparr>last_boxes := new_boxes, empty_streak := 0\<rparr>)
                else
                  let s = s\<lparr>empty_streak := empty_streak s + 1\<rparr>
                  in if empty_streak s \<ge> 3 then (None, s\<lparr>last_boxes := []\<rparr>)
                     else (None, s))
      else (None, s))"

text \<open>
  The body of the loop for one frame that \<open>cap.read()\<close> delivered: the cache update,
  then lines 214-217.
\<close>

definition loop_body ::
  "(frame \<Rightarrow> int \<Rightarrow> pixels) \<Rightarrow> (frame \<Rightarrow> detection list) \<Rightarrow> args \<Rightarrow> frame \<Rightarrow> loop_state
     \<Rightarrow> error option \<times> loop_state" where
  "loop_body gblur reader a f s =
     (case cache_update reader a f s of
        (Some e, s) \<Rightarrow> (Some e, s)
      | (None, s) \<Rightarrow>
          (let f = blur_or_black gblur f (last_boxes s) (mode a);
               s = s\<lparr>written := written s @ [f]\<rparr>;
               s = s\<lparr>frame_idx := frame_idx s + 1\<rparr>
           in (None, s)))"

text \<open>
  The \<open>while True\<close> loop over the frames that \<open>cap.read()\<close> delivers until it reports
  the end of the (finite) input; an exception ends the loop at once.
\<close>

fun main_loop ::
  "(frame \<Rightarrow> int \<Rightarrow> pixels) \<Rightarrow> (frame \<Rightarrow> detection list) \<Rightarrow> args \<Rightarrow> frame list \<Rightarrow> loop_state
     \<Rightarrow> error option \<times> loop_state" where
  "main_loop gblur reader a [] s = (None, s)"
| "main_loop gblur reader a (f # frames) s =
     (case loop_body gblur reader a f s of
        (Some e, s) \<Rightarrow> (Some e, s)
      | (None, s) \<Rightarrow> main_loop gblur reader a frames s)"

section \<open>The audio remux: \<open>mux_audio\<close>\<close>

text \<open>
  The file system maps a path to what is there: a file with its contents, or a
  directory. An action of the operating system on it raises or not, and leaves a file
  system behind in either case.
\<close>

datatype node = File string | Directory

type_synonym filesystem = "string \<rightharpoonup> node"

type_synonym fs_action = "filesystem \<Rightarrow> error option \<times> filesystem"

text \<open>\<open>except OSError\<close> catches \<open>OSError\<close> and its subclasses.\<close>

fun is_OSError :: "error \<Rightarrow> bool" where
  "is_OSError FileNotFoundError = True"
| "is_OSError IsADirectoryError = True"
| "is_OSError PermissionError = True"
| "is_OSError OSError = True"
| "is_OSError _ = False"

datatype message = Ffmpeg_not_found | Ffmpeg_failed

datatype fs_call = Replace string string | Unlink string

text \<open>
  What \<open>mux_audio\<close> acts on: the files, the messages printed so far, and the calls of
  \<open>replace\<close> and \<open>unlink\<close> made so far.
\<close>

record world =
  files :: filesystem
  printed :: "message list"
  fs_calls :: "fs_call list"

text \<open>Lines 126-136: the command line \<open>cmd\<close> of the muxing tool.\<close>

definition ffmpeg_cmd :: "string \<Rightarrow> string \<Rightarrow> string \<Rightarrow> string list" where
  "ffmpeg_cmd input_path video_only_path output_path =
     [''ffmpeg'', ''-y'', ''-i'', video_only_path, ''-i'', input_path,
      ''-map'', ''0:v:0'', ''-map'', ''1:a?'', ''-c:v'', ''copy'',
      ''-c:a'', ''copy'', output_path]"

text \<open>
  \<open>mux_audio(input_path, video_only_path, output_path)\<close>, lines 120-150. Its three
  calls out of the program are parameters, each an action on the files that may raise
  anything or nothing:
  \<^item> \<open>run\<close> is \<open>subprocess.run(cmd, check=True)\<close>, which raises \<open>FileNotFoundError\<close>
    when the binary is missing and \<open>CalledProcessError\<close> when the tool exits with a
    non-zero status;
  \<^item> \<open>replace\<close> is \<open>Path.replace\<close>, called as \<open>src.replace(dst)\<close>;
  \<^item> \<open>unlink\<close> is \<open>Path.unlink\<close>.

  An exception raised inside an \<open>except\<close> handler propagates: the two calls of
  \<open>replace\<close> have no \<open>try\<close> around them, the call of \<open>unlink\<close> has one.
\<close>

definition mux_audio ::
  "(string list \<Rightarrow> fs_action) \<Rightarrow> (string \<Rightarrow> string \<Rightarrow> fs_action) \<Rightarrow> (string \<Rightarrow> fs_action)
     \<Rightarrow> string \<Rightarrow> string \<Rightarrow> string \<Rightarrow> world \<Rightarrow> error option \<times> world" where
  "mux_audio run replace unlink input_path video_only_path output_path wd =
     (let cmd = ffmpeg_cmd input_path video_only_path output_path
      in case run cmd (files wd) of
           (Some FileNotFoundError, fs) \<Rightarrow>
             (let wd = wd\<lparr>files := fs, printed := printed wd @ [Ffmpeg_not_found]\<rparr>;
                  wd = wd\<lparr>fs_calls := fs_calls wd @ [Replace video_only_path output_path]\<rparr>
              in case replace video_only_path output_path (files wd) of
                   (r, fs) \<Rightarrow> (r, wd\<lparr>files := fs\<rparr>))
         | (Some CalledProcessError, fs) \<Rightarrow>
             (let wd = wd\<lparr>files := fs, printed := printed wd @ [Ffmpeg_failed]\<rparr>;
                  wd = wd\<lparr>fs_calls := fs_calls wd @ [Replace video_only_path output_path]\<rparr>
              in case replace video_only_path output_path (files wd) of
                   (r, fs) \<Rightarrow> (r, wd\<lparr>files := fs\<rparr>))
         | (Some e, fs) \<Rightarrow> (Some e, wd\<lparr>files := fs\<rparr>)
         | (None, fs) \<Rightarrow>
             (let wd = wd\<lparr>files := fs\<rparr>;
                  wd = wd\<lparr>fs_calls := fs_calls wd @ [Unlink video_only_path]\<rparr>
              in case unlink video_only_path (files wd) of
                   (Some e, fs) \<Rightarrow>
                     if is_OSError e then (None, wd\<lparr>files := fs\<rparr>)
                     else (Some e, wd\<lparr>files := fs\<rparr>)
                 | (None, fs) \<Rightarrow> (None, wd\<lparr>files := fs\<rparr>)))"

section \<open>Predicates of the specification\<close>

text \<open>
  The comparison \<open>a >= b\<close> of IEEE 754, by which a confidence is at least the
  threshold: false whenever an operand is NaN.
\<close>

fun float_ge :: "pyfloat \<Rightarrow> pyfloat \<Rightarrow> bool" where
  "float_ge (Finite a) (Finite b) = (b \<le> a)"
| "float_ge PosInf (Finite b) = True"
| "float_ge PosInf PosInf = True"
| "float_ge PosInf NegInf = True"
| "float_ge (Finite a) NegInf = True"
| "float_ge NegInf NegInf = True"
| "float_ge _ _ = False"

text \<open>
  A polygon with at least one point and finite coordinates only, the polygons that have
  a bounding box.
\<close>

fun is_finite :: "pyfloat \<Rightarrow> bool" where
  "is_finite (Finite v) = True"
| "is_finite _ = False"

definition good_polygon :: "point list \<Rightarrow> bool" where
  "good_polygon bbox \<longleftrightarrow>
     bbox \<noteq> [] \<and> list_all (\<lambda>p. is_finite (fst p) \<and> is_finite (snd p)) bbox"

text \<open>
  The integer coordinate of a finite number (0 stands in for the others, which have
  none).
\<close>

fun coord :: "pyfloat \<Rightarrow> int" where
  "coord (Finite v) = py_trunc v"
| "coord _ = 0"

text \<open>
  The region the specification derives from a polygon: the axis-aligned bounding box of
  its points, \<open>x1 = min(xs)\<close>, \<open>x2 = max(xs)\<close>, \<open>y1 = min(ys)\<close>, \<open>y2 = max(ys)\<close>,
  each coordinate clamped to \<open>[0, w - 1]\<close> or \<open>[0, h - 1]\<close>.
\<close>

definition bbox_region :: "int \<Rightarrow> int \<Rightarrow> point list \<Rightarrow> box" where
  "bbox_region w h bbox =
     (let xs = map (\<lambda>p. coord (fst p)) bbox; ys = map (\<lambda>p. coord (snd p)) bbox
      in (clamp w (Min (set xs)), clamp h (Min (set ys)),
          clamp w (Max (set xs)), clamp h (Max (set ys))))"

text \<open>
  A region is clamped to \<open>[0, w - 1] \<times> [0, h - 1]\<close> and non-degenerate.
\<close>

definition region_ok :: "int \<Rightarrow> int \<Rightarrow> box \<Rightarrow> bool" where
  "region_ok w h b =
     (case b of (x1, y1, x2, y2) \<Rightarrow>
        0 \<le> x1 \<and> x1 \<le> w - 1 \<and> 0 \<le> x2 \<and> x2 \<le> w - 1 \<and>
        0 \<le> y1 \<and> y1 \<le> h - 1 \<and> 0 \<le> y2 \<and> y2 \<le> h - 1 \<and>
        x1 < x2 \<and> y1 < y2)"

text \<open>The minimum redactable size: at least 10 wide and 10 high.\<close>

definition min_size :: "box \<Rightarrow> bool" where
  "min_size b = (case b of (x1, y1, x2, y2) \<Rightarrow> x2 - x1 \<ge> 10 \<and> y2 - y1 \<ge> 10)"

text \<open>
  The checks of the detector adapter on one tuple, as the specification lists them: it
  is not discarded for \<open>confidence < threshold\<close>, and its clamped bounding box is within
  bounds, non-degenerate and of the minimum size.
\<close>

definition passes_checks :: "int \<Rightarrow> int \<Rightarrow> pyfloat \<Rightarrow> detection \<Rightarrow> bool" where
  "passes_checks w h threshold d =
     (case d of (bbox, text, conf) \<Rightarrow>
        \<not> float_lt conf threshold \<and> region_ok w h (bbox_region w h bbox) \<and>
        min_size (bbox_region w h bbox))"

text \<open>
  The pixels that some box of the list covers on a frame of width \<open>w\<close> and height
  \<open>h\<close>: those inside the slice of the box as \<open>blur_or_black\<close> clamps it.
\<close>

definition covered :: "int \<Rightarrow> int \<Rightarrow> box list \<Rightarrow> int \<Rightarrow> int \<Rightarrow> bool" where
  "covered w h boxes y x =
     list_ex (\<lambda>(x1, y1, x2, y2).
        in_slice (clamp h y1) (clamp h y2) (clamp w x1) (clamp w x2) y x) boxes"

section \<open>Example data\<close>

text \<open>
  Two frames of 640 by 480 with three channels, one white and one black, and a
  localization collaborator that finds four texts on the white one: a plain one, one
  of low confidence, one that is too narrow, and one that reaches beyond the frame.
\<close>

definition ex_text_frame :: frame where
  "ex_text_frame = \<lparr>height = 480, width = 640, channels = 3, px = (\<lambda>y x c. 255)\<rparr>"

definition ex_blank_frame :: frame where
  "ex_blank_frame = \<lparr>height = 480, width = 640, channels = 3, px = (\<lambda>y x c. 0)\<rparr>"

definition pt :: "rat \<Rightarrow> rat \<Rightarrow> point" where
  "pt x y = (Finite x, Finite y)"

definition ex_reader :: "frame \<Rightarrow> detection list" where
  "ex_reader f =
     (if px f 0 0 0 = 255
      then [([pt 100 100, pt 200 100, pt 200 150, pt 100 150], ''text'', Finite (9 / 10)),
            ([pt 5 5, pt 300 5, pt 300 40, pt 5 40], ''faint'', Finite (1 / 10)),
            ([pt 10 10, pt 15 10, pt 15 30, pt 10 30], ''tiny'', Finite (9 / 10)),
            ([pt (- (7 / 2)) 400, pt 50 400, pt 50 500, pt (- (7 / 2)) 500], ''edge'',
             Finite (4 / 5))]
      else [])"

text \<open>
  A localization collaborator that returns one confident tuple whose polygon has an
  infinite coordinate.
\<close>

definition ex_bad_reader :: "frame \<Rightarrow> detection list" where
  "ex_bad_reader f = [([pt 10 10, (PosInf, Finite 30)], ''far'', Finite (9 / 10))]"

text \<open>
  Arguments with a given detection interval, a collaborator for \<open>cv2.GaussianBlur\<close>
  that returns grey, and a loop state with one cached region.
\<close>

definition ex_args :: "int \<Rightarrow> args" where
  "ex_args n = \<lparr>input_file = ''in.mp4'', output_file = ''out.mp4'', mode = Black,
     band_ratio = Finite 1, detect_every = n, conf_thresh = Finite (1 / 2), gpu = False\<rparr>"

definition ex_gblur :: "frame \<Rightarrow> int \<Rightarrow> pixels" where
  "ex_gblur roi ksize = (\<lambda>y x c. 128)"

definition ex_state :: "int \<Rightarrow> int \<Rightarrow> loop_state" where
  "ex_state i k =
     \<lparr>frame_idx = i, last_boxes = [(1, 2, 30, 40)], empty_streak = k, written = [],
      ocr_calls = []\<rparr>"

text \<open>
  A file system with the input and the video-only artifact, and the same with a
  directory at the output path.
\<close>

definition ex_files :: filesystem where
  "ex_files = [''in.mp4'' \<mapsto> File ''audio+video'',
     ''out_video_only.mp4'' \<mapsto> File ''redacted'']"

definition ex_files_dir :: filesystem where
  "ex_files_dir = [''in.mp4'' \<mapsto> File ''audio+video'',
     ''out_video_only.mp4'' \<mapsto> File ''redacted'', ''out.mp4'' \<mapsto> Directory]"

definition ex_world :: "filesystem \<Rightarrow> world" where
  "ex_world fs = \<lparr>files = fs, printed = [], fs_calls = []\<rparr>"

text \<open>
  A muxing tool whose binary is missing, one that exits with a non-zero status, and
  one that writes the muxed result to the last argument of its command.
\<close>

definition ex_missing :: "string list \<Rightarrow> fs_action" where
  "ex_missing cmd fs = (Some FileNotFoundError, fs)"

definition ex_fails :: "string list \<Rightarrow> fs_action" where
  "ex_fails cmd fs = (Some CalledProcessError, fs)"

definition ex_muxes :: "string list \<Rightarrow> fs_action" where
  "ex_muxes cmd fs = (None, fs(last cmd \<mapsto> File ''muxed''))"

text \<open>
  An operating system in the manner of Linux. \<open>replace\<close> needs its source, does not
  put a file in the place of a directory or a directory in the place of a file, and
  otherwise moves the source over the target. \<open>unlink\<close> removes a file, and raises for
  a missing path and for a directory.
\<close>

definition ex_replace :: "string \<Rightarrow> string \<Rightarrow> fs_action" where
  "ex_replace src dst fs =
     (case fs src of
        None \<Rightarrow> (Some FileNotFoundError, fs)
      | Some (File content) \<Rightarrow>
          (case fs dst of
             Some Directory \<Rightarrow> (Some IsADirectoryError, fs)
           | _ \<Rightarrow> (None, (fs(src := None))(dst \<mapsto> File content)))
      | Some Directory \<Rightarrow>
          (case fs dst of
             Some (File content) \<Rightarrow> (Some OSError, fs)
           | _ \<Rightarrow> (None, (fs(src := None))(dst \<mapsto> Directory))))"

definition ex_unlink :: "string \<Rightarrow> fs_action" where
  "ex_unlink p fs =
     (case fs p of
        None \<Rightarrow> (Some FileNotFoundError, fs)
      | Some (File content) \<Rightarrow> (None, fs(p := None))
      | Some Directory \<Rightarrow> (Some IsADirectoryError, fs))"

text \<open>
  An \<open>unlink\<close> that the operating system refuses, as for a file in a directory
  without write permission: the file stays.
\<close>

definition ex_unlink_denied :: "string \<Rightarrow> fs_action" where
  "ex_unlink_denied p fs = (Some PermissionError, fs)"

text \<open>The equations of \<open>blur_or_black\<close> are unfolded only where a proof asks for them.\<close>

declare blur_or_black.simps [simp del]

section \<open>Blur kernel size\<close>

text \<open>
  Claim C7. The kernel side length \<open>max(15, (region_width // 3) | 1)\<close>, incremented by 1
  if even, is always an odd integer and always at least 15. It holds for every integer
  region width, so in particular for every width \<open>\<ge> 0\<close>.
\<close>

theorem ksize_odd_ge_15: "odd (ksize_of region_width) \<and> 15 \<le> ksize_of region_width"
proof -
  let ?k = "max 15 ((region_width div 3) OR 1)"
  have "odd ((region_width div 3) OR 1)"
    by (simp add: even_or_iff)
  then have k: "odd ?k"
    by (simp add: max_def)
  then have "?k mod 2 = 1"
    by presburger
  then have "ksize_of region_width = ?k"
    by (simp add: ksize_of_def Let_def)
  with k show ?thesis
    by simp
qed

section \<open>The detector adapter returns clamped, filtered regions\<close>

lemma py_min_Min: "xs \<noteq> [] \<Longrightarrow> py_min xs = Inr (Min (set xs))"
  by (cases xs) (simp_all add: py_min_def Min.set_eq_fold [symmetric])

lemma py_max_Max: "xs \<noteq> [] \<Longrightarrow> py_max xs = Inr (Max (set xs))"
  by (cases xs) (simp_all add: py_max_def Max.set_eq_fold [symmetric])

lemma clamp_nonneg: "0 \<le> clamp n v"
  by (simp add: clamp_def)

lemma clamp_less_bound: "clamp n u < clamp n v \<Longrightarrow> clamp n u \<le> n - 1 \<and> clamp n v \<le> n - 1"
  by (auto simp: clamp_def max_def min_def split: if_splits)

lemma region_ok_clamped:
  "region_ok w h (clamp w a, clamp h b, clamp w c, clamp h d) \<longleftrightarrow>
     \<not> (clamp w c \<le> clamp w a \<or> clamp h d \<le> clamp h b)"
  using clamp_less_bound [of w a c] clamp_less_bound [of h b d]
  by (auto simp: region_ok_def clamp_nonneg)

lemma float_ge_iff_not_lt:
  "a \<noteq> NaN \<Longrightarrow> b \<noteq> NaN \<Longrightarrow> float_ge a b \<longleftrightarrow> \<not> float_lt a b"
  by (cases a; cases b) auto

lemma py_int_finite: "is_finite v \<Longrightarrow> py_int v = Inr (coord v)"
  by (cases v) simp_all

lemma py_int_not_finite:
  "\<not> is_finite v \<Longrightarrow> py_int v = Inl ValueError \<or> py_int v = Inl OverflowError"
  by (cases v) simp_all

lemma int_all_finite: "list_all is_finite vs \<Longrightarrow> int_all vs = Inr (map coord vs)"
  by (induction vs) (simp_all add: py_int_finite)

lemma int_all_not_finite:
  "\<not> list_all is_finite vs \<Longrightarrow> int_all vs = Inl ValueError \<or> int_all vs = Inl OverflowError"
proof (induction vs)
  case Nil
  then show ?case by simp
next
  case (Cons v vs)
  show ?case
  proof (cases "is_finite v")
    case True
    with Cons.prems have "\<not> list_all is_finite vs" by simp
    from Cons.IH [OF this] True show ?thesis
      by (auto simp: py_int_finite)
  next
    case False
    from py_int_not_finite [OF this] show ?thesis
      by auto
  qed
qed

lemma good_polygon_coords:
  assumes "good_polygon bbox"
  shows "int_all (map fst bbox) = Inr (map (\<lambda>p. coord (fst p)) bbox)"
    and "int_all (map snd bbox) = Inr (map (\<lambda>p. coord (snd p)) bbox)"
proof -
  from assms have "list_all is_finite (map fst bbox)" "list_all is_finite (map snd bbox)"
    by (simp_all add: good_polygon_def list_all_iff)
  then show "int_all (map fst bbox) = Inr (map (\<lambda>p. coord (fst p)) bbox)"
    and "int_all (map snd bbox) = Inr (map (\<lambda>p. coord (snd p)) bbox)"
    by (simp_all add: int_all_finite comp_def)
qed

lemma detect_loop_step:
  assumes "\<not> float_lt conf thr" "good_polygon bbox"
  shows "detect_loop h w thr ((bbox, text, conf) # results) boxes =
     detect_loop h w thr results
       (if passes_checks w h thr (bbox, text, conf)
        then boxes @ [bbox_region w h bbox] else boxes)"
proof -
  let ?xs = "map (\<lambda>p. coord (fst p)) bbox" and ?ys = "map (\<lambda>p. coord (snd p)) bbox"
  from assms(2) have ne: "bbox \<noteq> []"
    by (simp add: good_polygon_def)
  have xs: "py_min ?xs = Inr (Min (set ?xs))" "py_max ?xs = Inr (Max (set ?xs))"
    and ys: "py_min ?ys = Inr (Min (set ?ys))" "py_max ?ys = Inr (Max (set ?ys))"
    using ne by (simp_all add: py_min_Min py_max_Max)
  have ok: "region_ok w h (bbox_region w h bbox) \<longleftrightarrow>
      \<not> (clamp w (Max (set ?xs)) \<le> clamp w (Min (set ?xs)) \<or>
         clamp h (Max (set ?ys)) \<le> clamp h (Min (set ?ys)))"
    by (simp add: bbox_region_def Let_def region_ok_clamped)
  have sz: "min_size (bbox_region w h bbox) \<longleftrightarrow>
      \<not> (clamp w (Max (set ?xs)) - clamp w (Min (set ?xs)) < 10 \<or>
         clamp h (Max (set ?ys)) - clamp h (Min (set ?ys)) < 10)"
    by (auto simp: bbox_region_def Let_def min_size_def)
  have br: "bbox_region w h bbox = (clamp w (Min (set ?xs)), clamp h (Min (set ?ys)),
          clamp w (Max (set ?xs)), clamp h (Max (set ?ys)))"
    by (simp add: bbox_region_def Let_def)
  show ?thesis
    using assms(1) unfolding passes_checks_def prod.case ok sz
    by (simp add: good_polygon_coords [OF assms(2)] xs ys Let_def br del: set_map)
qed

lemma detect_loop_skip:
  "float_lt conf thr \<Longrightarrow>
   detect_loop h w thr ((bbox, text, conf) # results) boxes =
     detect_loop h w thr results boxes"
  by simp

lemma detect_loop_bad_polygon:
  assumes "\<not> float_lt conf thr" "\<not> good_polygon bbox"
  shows "detect_loop h w thr ((bbox, text, conf) # results) boxes = Inl ValueError \<or>
         detect_loop h w thr ((bbox, text, conf) # results) boxes = Inl OverflowError"
proof (cases "bbox = []")
  case True
  with assms(1) show ?thesis
    by (simp add: py_min_def)
next
  case False
  show ?thesis
  proof (cases "list_all is_finite (map fst bbox)")
    case xs: True
    with assms(2) False have "\<not> list_all is_finite (map snd bbox)"
      by (auto simp: good_polygon_def list_all_iff)
    from int_all_not_finite [OF this] int_all_finite [OF xs] assms(1) show ?thesis
      by auto
  next
    case False
    from int_all_not_finite [OF this] assms(1) show ?thesis
      by auto
  qed
qed

lemma detect_loop_filter:
  assumes "\<forall>(bbox, text, conf) \<in> set results. \<not> float_lt conf thr \<longrightarrow> good_polygon bbox"
  shows "detect_loop h w thr results boxes =
     Inr (boxes @ map (\<lambda>d. bbox_region w h (fst d)) (filter (passes_checks w h thr) results))"
  using assms
proof (induction results arbitrary: boxes)
  case Nil
  show ?case by simp
next
  case (Cons d results)
  obtain bbox t conf where d: "d = (bbox, t, conf)"
    by (cases d)
  from Cons.prems
  have rest: "\<forall>(bbox, text, conf) \<in> set results. \<not> float_lt conf thr \<longrightarrow> good_polygon bbox"
    by simp
  show ?case
  proof (cases "float_lt conf thr")
    case True
    then have "\<not> passes_checks w h thr d"
      by (simp add: passes_checks_def d)
    with True show ?thesis
      unfolding d using Cons.IH [OF rest] by (simp only: detect_loop_skip) (simp add: d)
  next
    case False
    with Cons.prems have good: "good_polygon bbox" by (simp add: d)
    show ?thesis
      unfolding d detect_loop_step [OF False good] Cons.IH [OF rest]
      by simp
  qed
qed

lemma detect_loop_error:
  assumes "\<exists>(bbox, text, conf) \<in> set results. \<not> float_lt conf thr \<and> \<not> good_polygon bbox"
  shows "detect_loop h w thr results boxes = Inl ValueError \<or>
         detect_loop h w thr results boxes = Inl OverflowError"
  using assms
proof (induction results arbitrary: boxes)
  case Nil
  then show ?case by simp
next
  case (Cons d results)
  obtain bbox t conf where d: "d = (bbox, t, conf)"
    by (cases d)
  show ?case
  proof (cases "\<not> float_lt conf thr \<and> \<not> good_polygon bbox")
    case True
    then show ?thesis
      unfolding d using detect_loop_bad_polygon [of conf thr bbox h w t results boxes]
      by blast
  next
    case False
    with Cons.prems
    have rest: "\<exists>(bbox, text, conf) \<in> set results. \<not> float_lt conf thr \<and> \<not> good_polygon bbox"
      by (auto simp: d)
    show ?thesis
    proof (cases "float_lt conf thr")
      case True
      then show ?thesis
        unfolding d using Cons.IH [OF rest] by (simp only: detect_loop_skip)
    next
      case lt: False
      with False have good: "good_polygon bbox"
        by simp
      show ?thesis
        unfolding d detect_loop_step [OF lt good] by (rule Cons.IH [OF rest])
    qed
  qed
qed

lemma passes_checks_filter:
  assumes "b \<in> set (map (\<lambda>d. bbox_region w h (fst d)) (filter (passes_checks w h thr) results))"
  shows "\<exists>(bbox, text, conf) \<in> set results.
           \<not> float_lt conf thr \<and> b = bbox_region w h bbox \<and> region_ok w h b \<and> min_size b"
  using assms by (force simp: passes_checks_def)

lemma detect_text_boxes_raises:
  assumes "\<exists>(bbox, text, conf) \<in> set (reader f). \<not> float_lt conf thr \<and> \<not> good_polygon bbox"
  shows "detect_text_boxes f reader br thr = Inl ValueError \<or>
         detect_text_boxes f reader br thr = Inl OverflowError"
  using detect_loop_error [OF assms]
  by (simp only: detect_text_boxes_def Let_def)

lemma detect_text_boxes_returns:
  assumes "\<not> (\<exists>(bbox, text, conf) \<in> set (reader f). \<not> float_lt conf thr \<and> \<not> good_polygon bbox)"
  shows "detect_text_boxes f reader br thr =
     Inr (map (\<lambda>d. bbox_region (int (width f)) (int (height f)) (fst d))
            (filter (passes_checks (int (width f)) (int (height f)) thr) (reader f)))"
proof -
  from assms
  have "\<forall>(bbox, text, conf) \<in> set (reader f). \<not> float_lt conf thr \<longrightarrow> good_polygon bbox"
    by auto
  from detect_loop_filter [OF this] show ?thesis
    by (simp only: detect_text_boxes_def Let_def append_Nil)
qed

lemma detect_text_boxes_Inl:
  assumes "detect_text_boxes f reader br thr = Inl e"
  shows "e = ValueError \<or> e = OverflowError"
proof (cases "\<exists>(bbox, text, conf) \<in> set (reader f). \<not> float_lt conf thr \<and> \<not> good_polygon bbox")
  case True
  from detect_text_boxes_raises [where reader = reader and f = f and br = br, OF this] assms show ?thesis
    by auto
next
  case False
  from detect_text_boxes_returns [where reader = reader and f = f and br = br, OF this] assms show ?thesis
    by simp
qed

lemma detect_text_boxes_Inr:
  assumes "detect_text_boxes f reader br thr = Inr boxes"
  shows "boxes = map (\<lambda>d. bbox_region (int (width f)) (int (height f)) (fst d))
            (filter (passes_checks (int (width f)) (int (height f)) thr) (reader f))"
proof (cases "\<exists>(bbox, text, conf) \<in> set (reader f). \<not> float_lt conf thr \<and> \<not> good_polygon bbox")
  case True
  from detect_text_boxes_raises [where reader = reader and f = f and br = br, OF this] assms show ?thesis
    by auto
next
  case False
  from detect_text_boxes_returns [where reader = reader and f = f and br = br, OF this] assms show ?thesis
    by simp
qed

lemma detect_text_boxes_ok:
  assumes "detect_text_boxes f reader br thr = Inr boxes" and "b \<in> set boxes"
  shows "region_ok (int (width f)) (int (height f)) b \<and> min_size b"
  using assms(2) passes_checks_filter [of b "int (width f)" "int (height f)" thr "reader f"]
  unfolding detect_text_boxes_Inr [OF assms(1)] by auto

lemma ex_regions:
  "bbox_region 640 480 [pt 100 100, pt 200 100, pt 200 150, pt 100 150] = (100, 100, 200, 150)"
  "bbox_region 640 480 [pt 5 5, pt 300 5, pt 300 40, pt 5 40] = (5, 5, 300, 40)"
  "bbox_region 640 480 [pt 10 10, pt 15 10, pt 15 30, pt 10 30] = (10, 10, 15, 30)"
  "bbox_region 640 480 [pt (- (7 / 2)) 400, pt 50 400, pt 50 500, pt (- (7 / 2)) 500] =
     (0, 400, 50, 479)"
  by (simp_all add: bbox_region_def pt_def py_trunc_def clamp_def)

lemma ex_passes:
  "passes_checks 640 480 (Finite (1 / 2))
     ([pt 100 100, pt 200 100, pt 200 150, pt 100 150], ''text'', Finite (9 / 10))"
  "\<not> passes_checks 640 480 (Finite (1 / 2))
     ([pt 5 5, pt 300 5, pt 300 40, pt 5 40], ''faint'', Finite (1 / 10))"
  "\<not> passes_checks 640 480 thr
     ([pt 10 10, pt 15 10, pt 15 30, pt 10 30], ''tiny'', Finite (9 / 10))"
  "passes_checks 640 480 (Finite (1 / 2))
     ([pt (- (7 / 2)) 400, pt 50 400, pt 50 500, pt (- (7 / 2)) 500], ''edge'', Finite (4 / 5))"
  by (simp_all add: passes_checks_def ex_regions region_ok_def min_size_def)

lemma ex_passes_nan:
  "passes_checks 640 480 NaN
     ([pt 100 100, pt 200 100, pt 200 150, pt 100 150], ''text'', Finite (9 / 10))"
  "passes_checks 640 480 NaN
     ([pt 5 5, pt 300 5, pt 300 40, pt 5 40], ''faint'', Finite (1 / 10))"
  "passes_checks 640 480 NaN
     ([pt (- (7 / 2)) 400, pt 50 400, pt 50 500, pt (- (7 / 2)) 500], ''edge'', Finite (4 / 5))"
  by (simp_all add: passes_checks_def ex_regions region_ok_def min_size_def)

lemma ex_filter:
  "map (\<lambda>d. bbox_region (int (width ex_text_frame)) (int (height ex_text_frame)) (fst d))
     (filter (passes_checks (int (width ex_text_frame)) (int (height ex_text_frame))
        (Finite (1 / 2))) (ex_reader ex_text_frame)) = [(100, 100, 200, 150), (0, 400, 50, 479)]"
  by (simp add: ex_reader_def ex_text_frame_def ex_passes ex_regions)

lemma ex_filter_nan:
  "map (\<lambda>d. bbox_region (int (width ex_text_frame)) (int (height ex_text_frame)) (fst d))
     (filter (passes_checks (int (width ex_text_frame)) (int (height ex_text_frame)) NaN)
        (ex_reader ex_text_frame)) =
   [(100, 100, 200, 150), (5, 5, 300, 40), (0, 400, 50, 479)]"
  by (simp add: ex_reader_def ex_text_frame_def ex_passes ex_passes_nan ex_regions)

lemma ex_good:
  "\<not> (\<exists>(bbox, text, conf) \<in> set (ex_reader ex_text_frame).
        \<not> float_lt conf thr \<and> \<not> good_polygon bbox)"
  by (simp add: ex_reader_def ex_text_frame_def good_polygon_def pt_def)

lemma ex_detect_text:
  "detect_text_boxes ex_text_frame ex_reader br (Finite (1 / 2)) =
     Inr [(100, 100, 200, 150), (0, 400, 50, 479)]"
  using detect_text_boxes_returns [where reader = ex_reader and f = ex_text_frame, OF ex_good]
  by (simp only: ex_filter)

lemma ex_detect_blank: "detect_text_boxes ex_blank_frame ex_reader br thr = Inr []"
  by (simp add: detect_text_boxes_def ex_reader_def ex_blank_frame_def)

text \<open>
  Claim C2, as the code has it. For every frame, threshold and sequence of tuples
  delivered by the localization collaborator, \<open>detect_text_boxes\<close> returns exactly the
  clamped bounding boxes of the tuples that pass the checks, in order: the tuple is not
  discarded for \<open>confidence < threshold\<close>, and the clamped box lies within
  \<open>[0, w - 1] \<times> [0, h - 1]\<close>, has \<open>x1 < x2\<close> and \<open>y1 < y2\<close>, and is at least 10 wide and
  10 high. Every other tuple produces no region. So each region returned has a source
  tuple that was not below the threshold, which is a confidence of at least the
  threshold whenever neither number is NaN, and it satisfies all the bounds. The one
  case without regions at all is a tuple, not below the threshold, whose polygon has no
  bounding box: it is empty, where \<open>min\<close> raises \<open>ValueError\<close>, or has a coordinate that
  is not finite, where \<open>int\<close> raises. No bound on the width and height of the frame is
  needed.
\<close>

theorem detect_text_boxes_regions:
  "(if \<exists>(bbox, text, conf) \<in> set (reader f). \<not> float_lt conf thr \<and> \<not> good_polygon bbox
    then detect_text_boxes f reader br thr = Inl ValueError \<or>
         detect_text_boxes f reader br thr = Inl OverflowError
    else detect_text_boxes f reader br thr =
      Inr (map (\<lambda>d. bbox_region (int (width f)) (int (height f)) (fst d))
             (filter (passes_checks (int (width f)) (int (height f)) thr) (reader f)))) \<and>
   (\<forall>boxes. detect_text_boxes f reader br thr = Inr boxes \<longrightarrow>
      (\<forall>(x1, y1, x2, y2) \<in> set boxes.
         (\<exists>(bbox, text, conf) \<in> set (reader f).
            \<not> float_lt conf thr \<and>
            (conf \<noteq> NaN \<and> thr \<noteq> NaN \<longrightarrow> float_ge conf thr) \<and>
            (x1, y1, x2, y2) = bbox_region (int (width f)) (int (height f)) bbox) \<and>
         0 \<le> x1 \<and> x1 \<le> int (width f) - 1 \<and> 0 \<le> x2 \<and> x2 \<le> int (width f) - 1 \<and>
         0 \<le> y1 \<and> y1 \<le> int (height f) - 1 \<and> 0 \<le> y2 \<and> y2 \<le> int (height f) - 1 \<and>
         x1 < x2 \<and> y1 < y2 \<and> x2 - x1 \<ge> 10 \<and> y2 - y1 \<ge> 10))"
proof (intro conjI allI impI)
  show "if \<exists>(bbox, text, conf) \<in> set (reader f). \<not> float_lt conf thr \<and> \<not> good_polygon bbox
    then detect_text_boxes f reader br thr = Inl ValueError \<or>
         detect_text_boxes f reader br thr = Inl OverflowError
    else detect_text_boxes f reader br thr =
      Inr (map (\<lambda>d. bbox_region (int (width f)) (int (height f)) (fst d))
             (filter (passes_checks (int (width f)) (int (height f)) thr) (reader f)))"
  proof (cases "\<exists>(bbox, text, conf) \<in> set (reader f).
      \<not> float_lt conf thr \<and> \<not> good_polygon bbox")
    case True
    from detect_text_boxes_raises [where reader = reader and f = f and br = br, OF this] True
    show ?thesis by (simp only: if_True)
  next
    case False
    from detect_text_boxes_returns [where reader = reader and f = f and br = br, OF this] False
    show ?thesis by (simp only: if_False)
  qed
next
  fix boxes
  assume r: "detect_text_boxes f reader br thr = Inr boxes"
  let ?w = "int (width f)" and ?h = "int (height f)"
  note eq = detect_text_boxes_Inr [OF r]
  show "\<forall>(x1, y1, x2, y2) \<in> set boxes.
         (\<exists>(bbox, text, conf) \<in> set (reader f).
            \<not> float_lt conf thr \<and>
            (conf \<noteq> NaN \<and> thr \<noteq> NaN \<longrightarrow> float_ge conf thr) \<and>
            (x1, y1, x2, y2) = bbox_region ?w ?h bbox) \<and>
         0 \<le> x1 \<and> x1 \<le> ?w - 1 \<and> 0 \<le> x2 \<and> x2 \<le> ?w - 1 \<and>
         0 \<le> y1 \<and> y1 \<le> ?h - 1 \<and> 0 \<le> y2 \<and> y2 \<le> ?h - 1 \<and>
         x1 < x2 \<and> y1 < y2 \<and> x2 - x1 \<ge> 10 \<and> y2 - y1 \<ge> 10"
  proof (clarify, intro conjI)
    fix x1 y1 x2 y2
    assume "(x1, y1, x2, y2) \<in> set boxes"
    with eq passes_checks_filter [of "(x1, y1, x2, y2)" ?w ?h thr "reader f"]
    have ex: "\<exists>(bbox, text, conf) \<in> set (reader f).
           \<not> float_lt conf thr \<and> (x1, y1, x2, y2) = bbox_region ?w ?h bbox \<and>
           region_ok ?w ?h (x1, y1, x2, y2) \<and> min_size (x1, y1, x2, y2)"
      by simp
    then obtain bbox t conf where src: "(bbox, t, conf) \<in> set (reader f)"
      and lt: "\<not> float_lt conf thr" and b: "(x1, y1, x2, y2) = bbox_region ?w ?h bbox"
      by blast
    from lt have "conf \<noteq> NaN \<and> thr \<noteq> NaN \<longrightarrow> float_ge conf thr"
      by (simp add: float_ge_iff_not_lt)
    with src lt b show "\<exists>(bbox, text, conf) \<in> set (reader f).
            \<not> float_lt conf thr \<and>
            (conf \<noteq> NaN \<and> thr \<noteq> NaN \<longrightarrow> float_ge conf thr) \<and>
            (x1, y1, x2, y2) = bbox_region ?w ?h bbox"
      by blast
    from ex have ok: "region_ok ?w ?h (x1, y1, x2, y2)" and sz: "min_size (x1, y1, x2, y2)"
      by blast+
    from ok show "0 \<le> x1" "x1 \<le> ?w - 1" "0 \<le> x2" "x2 \<le> ?w - 1"
      "0 \<le> y1" "y1 \<le> ?h - 1" "0 \<le> y2" "y2 \<le> ?h - 1" "x1 < x2" "y1 < y2"
      by (simp_all add: region_ok_def)
    from sz show "x2 - x1 \<ge> 10" "y2 - y1 \<ge> 10"
      by (simp_all add: min_size_def)
  qed
qed

text \<open>
  An input for C2: four tuples on a 640 by 480 frame at threshold 1/2, of which one is
  below the threshold, one is too small, and one is clamped at the frame's edge; and a
  confident tuple with an infinite coordinate, where the call raises.
\<close>

theorem detect_text_boxes_regions_witness:
  "\<not> (\<exists>(bbox, text, conf) \<in> set (ex_reader ex_text_frame).
        \<not> float_lt conf (Finite (1 / 2)) \<and> \<not> good_polygon bbox) \<and>
   detect_text_boxes ex_text_frame ex_reader (Finite 1) (Finite (1 / 2)) =
     Inr [(100, 100, 200, 150), (0, 400, 50, 479)] \<and>
   (\<exists>(bbox, text, conf) \<in> set (ex_reader ex_text_frame).
      \<not> float_lt conf (Finite (1 / 2)) \<and> float_ge conf (Finite (1 / 2)) \<and>
      (100, 100, 200, 150) =
        bbox_region (int (width ex_text_frame)) (int (height ex_text_frame)) bbox) \<and>
   (\<exists>(bbox, text, conf) \<in> set (ex_reader ex_text_frame).
      \<not> float_lt conf (Finite (1 / 2)) \<and> float_ge conf (Finite (1 / 2)) \<and>
      (0, 400, 50, 479) =
        bbox_region (int (width ex_text_frame)) (int (height ex_text_frame)) bbox) \<and>
   (200 :: int) \<le> int (width ex_text_frame) - 1 \<and> (150 :: int) \<le> int (height ex_text_frame) - 1 \<and>
   (50 :: int) \<le> int (width ex_text_frame) - 1 \<and> (479 :: int) \<le> int (height ex_text_frame) - 1 \<and>
   (\<exists>(bbox, text, conf) \<in> set (ex_bad_reader ex_text_frame).
      \<not> float_lt conf (Finite (1 / 2)) \<and> \<not> good_polygon bbox) \<and>
   detect_text_boxes ex_text_frame ex_bad_reader (Finite 1) (Finite (1 / 2)) = Inl OverflowError"
proof -
  note inst = detect_text_boxes_regions [of ex_reader ex_text_frame "Finite (1 / 2)" "Finite 1"]
  note ne = ex_good [of "Finite (1 / 2)"]
  from inst ne have d: "detect_text_boxes ex_text_frame ex_reader (Finite 1) (Finite (1 / 2)) =
      Inr [(100, 100, 200, 150), (0, 400, 50, 479)]"
    by (simp only: if_False ex_filter)
  from inst d have all: "\<forall>(x1, y1, x2, y2) \<in> set [(100, 100, 200, 150), (0, 400, 50, 479)].
      (\<exists>(bbox, text, conf) \<in> set (ex_reader ex_text_frame).
          \<not> float_lt conf (Finite (1 / 2)) \<and>
          (conf \<noteq> NaN \<and> Finite (1 / 2) \<noteq> NaN \<longrightarrow> float_ge conf (Finite (1 / 2))) \<and>
          (x1, y1, x2, y2) =
            bbox_region (int (width ex_text_frame)) (int (height ex_text_frame)) bbox) \<and>
      0 \<le> x1 \<and> x1 \<le> int (width ex_text_frame) - 1 \<and>
      0 \<le> x2 \<and> x2 \<le> int (width ex_text_frame) - 1 \<and>
      0 \<le> y1 \<and> y1 \<le> int (height ex_text_frame) - 1 \<and>
      0 \<le> y2 \<and> y2 \<le> int (height ex_text_frame) - 1 \<and>
      x1 < x2 \<and> y1 < y2 \<and> x2 - x1 \<ge> 10 \<and> y2 - y1 \<ge> 10"
    by blast
  have a: "(100, 100, 200, 150) \<in> set [(100, 100, 200, 150), (0, 400, 50, 479 :: int)]"
    and b: "(0, 400, 50, 479) \<in> set [(100, 100, 200, 150), (0, 400, 50, 479 :: int)]"
    by simp_all
  have ge: "\<And>bbox t conf. (bbox, t, conf) \<in> set (ex_reader ex_text_frame) \<Longrightarrow>
      (conf \<noteq> NaN \<and> Finite (1 / 2) \<noteq> NaN \<longrightarrow> float_ge conf (Finite (1 / 2))) \<Longrightarrow>
      float_ge conf (Finite (1 / 2))"
    by (auto simp: ex_reader_def ex_text_frame_def)
  have bad: "\<exists>(bbox, text, conf) \<in> set (ex_bad_reader ex_text_frame).
      \<not> float_lt conf (Finite (1 / 2)) \<and> \<not> good_polygon bbox"
    by (simp add: ex_bad_reader_def good_polygon_def pt_def)
  note inst_bad =
    detect_text_boxes_regions [of ex_bad_reader ex_text_frame "Finite (1 / 2)" "Finite 1"]
  from inst_bad bad
  have "detect_text_boxes ex_text_frame ex_bad_reader (Finite 1) (Finite (1 / 2)) = Inl ValueError \<or>
      detect_text_boxes ex_text_frame ex_bad_reader (Finite 1) (Finite (1 / 2)) = Inl OverflowError"
    by (simp only: if_True)
  moreover
  have "detect_text_boxes ex_text_frame ex_bad_reader (Finite 1) (Finite (1 / 2)) \<noteq> Inl ValueError"
    by (simp add: detect_text_boxes_def ex_bad_reader_def pt_def)
  ultimately
  have raised: "detect_text_boxes ex_text_frame ex_bad_reader (Finite 1) (Finite (1 / 2)) =
      Inl OverflowError"
    by blast
  from all [rule_format, OF a] all [rule_format, OF b] ne d ge
  have "(\<exists>(bbox, text, conf) \<in> set (ex_reader ex_text_frame).
      \<not> float_lt conf (Finite (1 / 2)) \<and> float_ge conf (Finite (1 / 2)) \<and>
      (100, 100, 200, 150) =
        bbox_region (int (width ex_text_frame)) (int (height ex_text_frame)) bbox) \<and>
   (\<exists>(bbox, text, conf) \<in> set (ex_reader ex_text_frame).
      \<not> float_lt conf (Finite (1 / 2)) \<and> float_ge conf (Finite (1 / 2)) \<and>
      (0, 400, 50, 479) =
        bbox_region (int (width ex_text_frame)) (int (height ex_text_frame)) bbox) \<and>
   (200 :: int) \<le> int (width ex_text_frame) - 1 \<and> (150 :: int) \<le> int (height ex_text_frame) - 1 \<and>
   (50 :: int) \<le> int (width ex_text_frame) - 1 \<and> (479 :: int) \<le> int (height ex_text_frame) - 1"
    by (simp only: prod.case) blast
  with ne d bad raised show ?thesis
    by blast
qed

text \<open>
  The claim C2 as stated, for every threshold, fails at the threshold NaN, which
  \<open>--conf-thresh nan\<close> gives: \<open>conf < conf_thresh\<close> is false for every tuple, three regions
  are returned, and no tuple has a confidence of at least the threshold.
\<close>

theorem detect_text_boxes_regions_counterexample:
  "detect_text_boxes ex_text_frame ex_reader (Finite 1) NaN =
     Inr [(100, 100, 200, 150), (5, 5, 300, 40), (0, 400, 50, 479)] \<and>
   ex_reader ex_text_frame =
     [([pt 100 100, pt 200 100, pt 200 150, pt 100 150], ''text'', Finite (9 / 10)),
      ([pt 5 5, pt 300 5, pt 300 40, pt 5 40], ''faint'', Finite (1 / 10)),
      ([pt 10 10, pt 15 10, pt 15 30, pt 10 30], ''tiny'', Finite (9 / 10)),
      ([pt (- (7 / 2)) 400, pt 50 400, pt 50 500, pt (- (7 / 2)) 500], ''edge'',
       Finite (4 / 5))] \<and>
   \<not> float_ge (Finite (9 / 10)) NaN \<and> \<not> float_ge (Finite (1 / 10)) NaN \<and>
   \<not> float_ge (Finite (4 / 5)) NaN"
proof -
  have "detect_text_boxes ex_text_frame ex_reader (Finite 1) NaN =
     Inr [(100, 100, 200, 150), (5, 5, 300, 40), (0, 400, 50, 479)]"
    using detect_text_boxes_returns [where reader = ex_reader and f = ex_text_frame, OF ex_good]
    by (simp only: ex_filter_nan)
  then show ?thesis
    by (simp add: ex_reader_def ex_text_frame_def)
qed

section \<open>The region cache and the detection schedule\<close>

lemma cache_update_non_detection:
  "detect_every a \<noteq> 0 \<Longrightarrow> frame_idx s mod detect_every a \<noteq> 0 \<Longrightarrow> cache_update reader a f s = (None, s)"
  by (simp add: cache_update_def)

lemma loop_body_cache:
  "cache_update reader a f s = (None, s') \<Longrightarrow>
   loop_body gblur reader a f s =
     (None, s'\<lparr>written := written s' @ [blur_or_black gblur f (last_boxes s') (mode a)],
               frame_idx := frame_idx s' + 1\<rparr>)"
  by (simp add: loop_body_def Let_def)

text \<open>
  Claim C1. The initial cache is the empty region list with streak 0. On a frame that is
  not a detection frame the body of the loop leaves the cached regions and the streak
  as they are. On a detection frame where the detector returns \<open>new_boxes\<close>: if the
  list is not empty it replaces the cached regions and the streak becomes 0; if it is
  empty the streak grows by 1 and the cached regions are cleared when the new streak is
  at least 3, and kept otherwise. (The interval is non-zero here, see C10.)
\<close>

theorem cache_transition:
  "(last_boxes init_state = [] \<and> empty_streak init_state = 0) \<and>
   (detect_every a \<noteq> 0 \<longrightarrow> frame_idx s mod detect_every a \<noteq> 0 \<longrightarrow>
      (\<exists>s'. loop_body gblur reader a f s = (None, s') \<and>
         last_boxes s' = last_boxes s \<and> empty_streak s' = empty_streak s)) \<and>
   (detect_every a \<noteq> 0 \<longrightarrow> frame_idx s mod detect_every a = 0 \<longrightarrow>
    detect_text_boxes f reader (band_ratio a) (conf_thresh a) = Inr new_boxes \<longrightarrow>
      (\<exists>s'. loop_body gblur reader a f s = (None, s') \<and>
         (new_boxes \<noteq> [] \<longrightarrow> last_boxes s' = new_boxes \<and> empty_streak s' = 0) \<and>
         (new_boxes = [] \<longrightarrow> empty_streak s' = empty_streak s + 1 \<and>
            last_boxes s' = (if empty_streak s + 1 \<ge> 3 then [] else last_boxes s))))"
proof (intro conjI impI)
  show "last_boxes init_state = []" "empty_streak init_state = 0"
    by (simp_all add: init_state_def)
next
  assume "detect_every a \<noteq> 0" "frame_idx s mod detect_every a \<noteq> 0"
  then have "cache_update reader a f s = (None, s)"
    by (rule cache_update_non_detection)
  from loop_body_cache [OF this]
  show "\<exists>s'. loop_body gblur reader a f s = (None, s') \<and>
         last_boxes s' = last_boxes s \<and> empty_streak s' = empty_streak s"
    by simp
next
  assume N: "detect_every a \<noteq> 0" and d: "frame_idx s mod detect_every a = 0"
    and det: "detect_text_boxes f reader (band_ratio a) (conf_thresh a) = Inr new_boxes"
  let ?s1 = "s\<lparr>ocr_calls := ocr_calls s @ [frame_idx s]\<rparr>"
  let ?s' = "if new_boxes \<noteq> [] then ?s1\<lparr>last_boxes := new_boxes, empty_streak := 0\<rparr>
             else if empty_streak s + 1 \<ge> 3
                  then ?s1\<lparr>empty_streak := empty_streak s + 1, last_boxes := []\<rparr>
                  else ?s1\<lparr>empty_streak := empty_streak s + 1\<rparr>"
  have "cache_update reader a f s = (None, ?s')"
    using N d det by (simp add: cache_update_def Let_def)
  from loop_body_cache [OF this]
  show "\<exists>s'. loop_body gblur reader a f s = (None, s') \<and>
         (new_boxes \<noteq> [] \<longrightarrow> last_boxes s' = new_boxes \<and> empty_streak s' = 0) \<and>
         (new_boxes = [] \<longrightarrow> empty_streak s' = empty_streak s + 1 \<and>
            last_boxes s' = (if empty_streak s + 1 \<ge> 3 then [] else last_boxes s))"
    by auto
qed

lemma cache_update_effect:
  assumes "detect_every a \<noteq> 0" and "cache_update reader a f s = (r, s')"
  shows "ocr_calls s' = ocr_calls s @ filter (\<lambda>i. i mod detect_every a = 0) [frame_idx s]"
    and "frame_idx s' = frame_idx s"
    and "written s' = written s"
    and "r \<noteq> None \<Longrightarrow> frame_idx s mod detect_every a = 0 \<and>
           (r = Some ValueError \<or> r = Some OverflowError)"
  using assms detect_text_boxes_Inl [of f reader "band_ratio a" "conf_thresh a"]
  by (auto simp: cache_update_def Let_def split: if_splits sum.splits)

lemma loop_body_effect:
  assumes "detect_every a \<noteq> 0" and "loop_body gblur reader a f s = (r, s')"
  shows "ocr_calls s' = ocr_calls s @ filter (\<lambda>i. i mod detect_every a = 0) [frame_idx s]"
    and "frame_idx s' = (if r = None then frame_idx s + 1 else frame_idx s)"
    and "r \<noteq> None \<Longrightarrow> frame_idx s mod detect_every a = 0 \<and>
           (r = Some ValueError \<or> r = Some OverflowError)"
proof -
  obtain r1 s1 where c: "cache_update reader a f s = (r1, s1)"
    by (cases "cache_update reader a f s")
  note e = cache_update_effect [OF assms(1) c]
  show "ocr_calls s' = ocr_calls s @ filter (\<lambda>i. i mod detect_every a = 0) [frame_idx s]"
    using assms(2) e(1) by (cases r1) (auto simp: loop_body_def c Let_def)
  show "frame_idx s' = (if r = None then frame_idx s + 1 else frame_idx s)"
    using assms(2) e(2) by (cases r1) (auto simp: loop_body_def c Let_def)
  show "r \<noteq> None \<Longrightarrow> frame_idx s mod detect_every a = 0 \<and>
           (r = Some ValueError \<or> r = Some OverflowError)"
    using assms(2) e(4) by (cases r1) (auto simp: loop_body_def c Let_def)
qed

lemma loop_body_zero:
  "detect_every a = 0 \<Longrightarrow> loop_body gblur reader a f s = (Some ZeroDivisionError, s)"
  by (simp add: loop_body_def cache_update_def)

lemma main_loop_calls:
  assumes "detect_every a \<noteq> 0"
    and "0 \<le> frame_idx s"
    and "ocr_calls s = filter (\<lambda>i. i mod detect_every a = 0) [0..frame_idx s - 1]"
    and "main_loop gblur reader a frames s = (r, s')"
  shows "ocr_calls s' = filter (\<lambda>i. i mod detect_every a = 0)
           [0..frame_idx s' - (if r = None then 1 else 0)] \<and>
         (r = None \<longrightarrow> frame_idx s' = frame_idx s + int (length frames)) \<and>
         (r \<noteq> None \<longrightarrow> (r = Some ValueError \<or> r = Some OverflowError) \<and>
            frame_idx s' mod detect_every a = 0 \<and>
            frame_idx s' < frame_idx s + int (length frames)) \<and>
         frame_idx s \<le> frame_idx s'"
  using assms(2-)
proof (induction frames arbitrary: s)
  case Nil
  then show ?case by simp
next
  case (Cons f frames)
  obtain r1 s1 where b: "loop_body gblur reader a f s = (r1, s1)"
    by (cases "loop_body gblur reader a f s")
  note e = loop_body_effect [OF assms(1) b]
  have up: "[0..frame_idx s] = [0..frame_idx s - 1] @ [frame_idx s]"
    using Cons.prems(1) by (simp add: upto_rec2)
  have calls1: "ocr_calls s1 = filter (\<lambda>i. i mod detect_every a = 0) [0..frame_idx s]"
    unfolding e(1) Cons.prems(2) up by simp
  show ?case
  proof (cases r1)
    case None
    with e(2) have idx: "frame_idx s1 = frame_idx s + 1" by simp
    from None b Cons.prems(3) have run: "main_loop gblur reader a frames s1 = (r, s')"
      by simp
    have "ocr_calls s1 = filter (\<lambda>i. i mod detect_every a = 0) [0..frame_idx s1 - 1]"
      using calls1 idx by simp
    from Cons.IH [OF _ this run] idx Cons.prems(1) show ?thesis
      by auto
  next
    case (Some err)
    with b Cons.prems(3) have rs: "r = Some err" "s' = s1"
      by simp_all
    from Some e(2) have idx: "frame_idx s1 = frame_idx s" by simp
    from Some e(3) have "frame_idx s mod detect_every a = 0" "r1 = Some ValueError \<or> r1 = Some OverflowError"
      by simp_all
    with rs idx calls1 Some show ?thesis
      by auto
  qed
qed

text \<open>
  Claim C5, for a non-zero detection interval. After the loop has run over the frames,
  the collaborator has been invoked exactly at the frame indices \<open>i\<close> with
  \<open>i mod N = 0\<close>, in order, among the frames the loop reached: all of them when the loop
  ends normally, and those up to the frame whose detection raised (\<open>ValueError\<close> or
  \<open>OverflowError\<close>, for a polygon without a bounding box) otherwise. Whenever
  there is a frame, frame 0 is a detection frame.
\<close>

theorem detection_schedule:
  assumes "detect_every a \<noteq> 0"
    and "main_loop gblur reader a frames init_state = (r, s')"
  shows "ocr_calls s' = filter (\<lambda>i. i mod detect_every a = 0)
           [0..frame_idx s' - (if r = None then 1 else 0)] \<and>
         (r = None \<longrightarrow> frame_idx s' = int (length frames)) \<and>
         (r \<noteq> None \<longrightarrow> (r = Some ValueError \<or> r = Some OverflowError) \<and>
            frame_idx s' mod detect_every a = 0 \<and>
            frame_idx s' < int (length frames)) \<and>
         (frames \<noteq> [] \<longrightarrow> 0 \<in> set (ocr_calls s'))"
proof -
  have i: "0 \<le> frame_idx init_state"
    "ocr_calls init_state = filter (\<lambda>i. i mod detect_every a = 0) [0..frame_idx init_state - 1]"
    by (simp_all add: init_state_def)
  note m = main_loop_calls [OF assms(1) i assms(2)]
  have "0 \<in> set (ocr_calls s')" if "frames \<noteq> []"
  proof -
    from m that have "0 \<le> frame_idx s' - (if r = None then 1 else 0)"
      by (cases r) (auto simp: init_state_def)
    with m show ?thesis by simp
  qed
  with m show ?thesis
    by (simp add: init_state_def)
qed

text \<open>
  Claim C10. With the detection interval 0 the test \<open>frame_idx % args.detect_every\<close>
  raises \<open>ZeroDivisionError\<close> on the first frame the loop reads: nothing is detected,
  nothing is written, the state is as before. With a non-zero interval the loop never
  raises \<open>ZeroDivisionError\<close>. The type of \<open>detect_every\<close> admits 0, as
  \<open>type=int\<close> in \<open>parse_args\<close> does.
\<close>

theorem zero_interval_fails:
  "(detect_every a = 0 \<longrightarrow>
      main_loop gblur reader a (f # frames) s = (Some ZeroDivisionError, s)) \<and>
   (detect_every a \<noteq> 0 \<longrightarrow>
      fst (main_loop gblur reader a frames init_state) \<noteq> Some ZeroDivisionError)"
proof (intro conjI impI)
  assume "detect_every a = 0"
  then show "main_loop gblur reader a (f # frames) s = (Some ZeroDivisionError, s)"
    by (simp add: loop_body_zero)
next
  assume N: "detect_every a \<noteq> 0"
  obtain r s' where run: "main_loop gblur reader a frames init_state = (r, s')"
    by (cases "main_loop gblur reader a frames init_state")
  have i: "0 \<le> frame_idx init_state"
    "ocr_calls init_state = filter (\<lambda>i. i mod detect_every a = 0) [0..frame_idx init_state - 1]"
    by (simp_all add: init_state_def)
  from main_loop_calls [OF N i run]
  have "r = None \<or> r = Some ValueError \<or> r = Some OverflowError"
    by blast
  with run show "fst (main_loop gblur reader a frames init_state) \<noteq> Some ZeroDivisionError"
    by auto
qed

lemma cache_update_regions:
  assumes "list_all (region_ok (int (width f)) (int (height f))) (last_boxes s)"
  shows "list_all (region_ok (int (width f)) (int (height f)))
           (last_boxes (snd (cache_update reader a f s)))"
proof (cases "detect_text_boxes f reader (band_ratio a) (conf_thresh a)")
  case (Inl e)
  with assms show ?thesis
    by (simp add: cache_update_def Let_def)
next
  case (Inr new_boxes)
  then have "list_all (region_ok (int (width f)) (int (height f))) new_boxes"
    using detect_text_boxes_ok [OF Inr] by (simp add: list_all_iff)
  with assms Inr show ?thesis
    by (simp add: cache_update_def Let_def)
qed

lemma loop_body_last_boxes:
  "last_boxes (snd (loop_body gblur reader a f s)) = last_boxes (snd (cache_update reader a f s))"
  by (simp add: loop_body_def Let_def split: prod.splits option.splits)

lemma main_loop_regions:
  assumes "\<forall>f \<in> set frames. width f = w \<and> height f = h"
    and "list_all (region_ok (int w) (int h)) (last_boxes s)"
  shows "list_all (region_ok (int w) (int h)) (last_boxes (snd (main_loop gblur reader a frames s)))"
  using assms
proof (induction frames arbitrary: s)
  case Nil
  then show ?case by simp
next
  case (Cons f frames)
  from Cons.prems(1) have wh: "width f = w" "height f = h"
    and rest: "\<forall>f \<in> set frames. width f = w \<and> height f = h"
    by simp_all
  obtain r1 s1 where b: "loop_body gblur reader a f s = (r1, s1)"
    by (cases "loop_body gblur reader a f s")
  have "list_all (region_ok (int w) (int h)) (last_boxes (snd (loop_body gblur reader a f s)))"
    unfolding loop_body_last_boxes
    using cache_update_regions [of f s reader a] Cons.prems(2) by (simp add: wh)
  then have s1: "list_all (region_ok (int w) (int h)) (last_boxes s1)"
    by (simp add: b)
  show ?case
  proof (cases r1)
    case None
    with b Cons.IH [OF rest s1] show ?thesis by simp
  next
    case (Some e)
    with b s1 show ?thesis by simp
  qed
qed

text \<open>
  Claim C4. When every frame of the run has the stream's width and height, every region
  of the cached list that \<open>blur_or_black\<close> receives is clamped to
  \<open>[0, width - 1] \<times> [0, height - 1]\<close> and has \<open>x1 < x2\<close> and \<open>y1 < y2\<close>: this holds
  for the initial cache, every cache update preserves it, and so it holds after any
  number of frames of the run, also when the run ends with an exception.
\<close>

theorem cached_regions_invariant:
  assumes "\<forall>f \<in> set frames. width f = w \<and> height f = h"
  shows "list_all (region_ok (int w) (int h)) (last_boxes init_state) \<and>
    (\<forall>f s. width f = w \<and> height f = h \<and> list_all (region_ok (int w) (int h)) (last_boxes s) \<longrightarrow>
       list_all (region_ok (int w) (int h)) (last_boxes (snd (cache_update reader a f s)))) \<and>
    (\<forall>k \<le> length frames.
       list_all (region_ok (int w) (int h))
         (last_boxes (snd (main_loop gblur reader a (take k frames) init_state))))"
proof (intro conjI allI impI)
  show init: "list_all (region_ok (int w) (int h)) (last_boxes init_state)"
    by (simp add: init_state_def)
  fix k :: nat
  assume "k \<le> length frames"
  have "\<forall>f \<in> set (take k frames). width f = w \<and> height f = h"
    using assms by (auto dest: in_set_takeD)
  from main_loop_regions [OF this init]
  show "list_all (region_ok (int w) (int h))
         (last_boxes (snd (main_loop gblur reader a (take k frames) init_state)))" .
next
  fix f :: frame and s :: loop_state
  assume "width f = w \<and> height f = h \<and> list_all (region_ok (int w) (int h)) (last_boxes s)"
  with cache_update_regions [of f s reader a]
  show "list_all (region_ok (int w) (int h)) (last_boxes (snd (cache_update reader a f s)))"
    by auto
qed

lemma ex_run:
  "fst (main_loop ex_gblur ex_reader (ex_args 2)
          [ex_text_frame, ex_blank_frame, ex_blank_frame] init_state) = None"
  "ocr_calls (snd (main_loop ex_gblur ex_reader (ex_args 2)
          [ex_text_frame, ex_blank_frame, ex_blank_frame] init_state)) = [0, 2]"
  "last_boxes (snd (main_loop ex_gblur ex_reader (ex_args 2)
          [ex_text_frame, ex_blank_frame, ex_blank_frame] init_state)) =
     [(100, 100, 200, 150), (0, 400, 50, 479)]"
  "empty_streak (snd (main_loop ex_gblur ex_reader (ex_args 2)
          [ex_text_frame, ex_blank_frame, ex_blank_frame] init_state)) = 1"
  "frame_idx (snd (main_loop ex_gblur ex_reader (ex_args 2)
          [ex_text_frame, ex_blank_frame, ex_blank_frame] init_state)) = 3"
  by (simp_all add: loop_body_def cache_update_def Let_def init_state_def ex_args_def
      ex_detect_text ex_detect_blank)

lemma staleness_scenario:
  "map (\<lambda>k. last_boxes (snd (main_loop ex_gblur ex_reader (ex_args 1)
          (take k [ex_text_frame, ex_blank_frame, ex_blank_frame, ex_blank_frame]) init_state)))
     [0, 1, 2, 3, 4] =
   [[], [(100, 100, 200, 150), (0, 400, 50, 479)], [(100, 100, 200, 150), (0, 400, 50, 479)],
    [(100, 100, 200, 150), (0, 400, 50, 479)], []]"
  by (simp add: loop_body_def cache_update_def Let_def init_state_def ex_args_def
      ex_detect_text ex_detect_blank)

text \<open>
  An input for C1: a frame that is not a detection frame, and a detection frame with an
  empty result that brings the streak from 2 to 3.
\<close>

theorem cache_transition_witness:
  "detect_every (ex_args 10) \<noteq> 0 \<and>
   frame_idx (ex_state 3 2) mod detect_every (ex_args 10) \<noteq> 0 \<and>
   frame_idx (ex_state 20 2) mod detect_every (ex_args 10) = 0 \<and>
   detect_text_boxes ex_blank_frame ex_reader (band_ratio (ex_args 10))
     (conf_thresh (ex_args 10)) = Inr [] \<and>
   (\<exists>s'. loop_body ex_gblur ex_reader (ex_args 10) ex_blank_frame (ex_state 3 2) = (None, s') \<and>
      last_boxes s' = [(1, 2, 30, 40)] \<and> empty_streak s' = 2) \<and>
   (\<exists>s'. loop_body ex_gblur ex_reader (ex_args 10) ex_blank_frame (ex_state 20 2) = (None, s') \<and>
      empty_streak s' = 3 \<and> last_boxes s' = [])"
proof -
  have N: "detect_every (ex_args 10) \<noteq> 0"
    by (simp add: ex_args_def)
  have i3: "frame_idx (ex_state 3 2) mod detect_every (ex_args 10) \<noteq> 0"
    by (simp add: ex_args_def ex_state_def)
  have i20: "frame_idx (ex_state 20 2) mod detect_every (ex_args 10) = 0"
    by (simp add: ex_args_def ex_state_def)
  have det: "detect_text_boxes ex_blank_frame ex_reader (band_ratio (ex_args 10))
     (conf_thresh (ex_args 10)) = Inr []"
    by (rule ex_detect_blank)
  note t3 = cache_transition [where a = "ex_args 10" and s = "ex_state 3 2"
      and gblur = ex_gblur and reader = ex_reader and f = ex_blank_frame and new_boxes = "[]"]
  note t20 = cache_transition [where a = "ex_args 10" and s = "ex_state 20 2"
      and gblur = ex_gblur and reader = ex_reader and f = ex_blank_frame and new_boxes = "[]"]
  have A: "\<exists>s'. loop_body ex_gblur ex_reader (ex_args 10) ex_blank_frame (ex_state 3 2) = (None, s') \<and>
      last_boxes s' = [(1, 2, 30, 40)] \<and> empty_streak s' = 2"
    using t3 N i3 by (simp add: ex_state_def)
  have B: "\<exists>s'. loop_body ex_gblur ex_reader (ex_args 10) ex_blank_frame (ex_state 20 2) = (None, s') \<and>
      empty_streak s' = 3 \<and> last_boxes s' = []"
    using t20 N i20 det by (simp add: ex_state_def)
  from N i3 i20 det A B show ?thesis
    by blast
qed

text \<open>An input for C5: three frames with the interval 2; frames 0 and 2 are detected.\<close>

theorem detection_schedule_witness:
  "detect_every (ex_args 2) \<noteq> 0 \<and>
   fst (main_loop ex_gblur ex_reader (ex_args 2)
          [ex_text_frame, ex_blank_frame, ex_blank_frame] init_state) = None \<and>
   ocr_calls (snd (main_loop ex_gblur ex_reader (ex_args 2)
          [ex_text_frame, ex_blank_frame, ex_blank_frame] init_state)) =
     filter (\<lambda>i. i mod 2 = 0) [0..2] \<and>
   0 \<in> set (ocr_calls (snd (main_loop ex_gblur ex_reader (ex_args 2)
          [ex_text_frame, ex_blank_frame, ex_blank_frame] init_state)))"
proof -
  let ?run = "main_loop ex_gblur ex_reader (ex_args 2)
          [ex_text_frame, ex_blank_frame, ex_blank_frame] init_state"
  have N: "detect_every (ex_args 2) \<noteq> 0"
    by (simp add: ex_args_def)
  have run: "?run = (fst ?run, snd ?run)"
    by simp
  note inst = detection_schedule [OF N run]
  from inst N ex_run(1) show ?thesis
    by (simp add: ex_args_def)
qed

text \<open>
  The claim C5 as stated, for every interval, fails at the interval 0: there
  \<open>0 mod 0 = 0\<close>, and frame 0 is not a detection frame, since the loop raises before the
  collaborator is invoked.
\<close>

theorem detection_schedule_counterexample:
  "(0 :: int) mod detect_every (ex_args 0) = 0 \<and>
   fst (main_loop ex_gblur ex_reader (ex_args 0) [ex_text_frame] init_state) =
     Some ZeroDivisionError \<and>
   0 \<notin> set (ocr_calls (snd (main_loop ex_gblur ex_reader (ex_args 0) [ex_text_frame] init_state)))"
  by (simp add: loop_body_def cache_update_def ex_args_def init_state_def)

text \<open>An input for C10: the same frames with the interval 0 and with the interval 2.\<close>

theorem zero_interval_fails_witness:
  "detect_every (ex_args 0) = 0 \<and>
   main_loop ex_gblur ex_reader (ex_args 0) (ex_text_frame # [ex_blank_frame]) init_state =
     (Some ZeroDivisionError, init_state) \<and>
   detect_every (ex_args 2) \<noteq> 0 \<and>
   fst (main_loop ex_gblur ex_reader (ex_args 2)
          [ex_text_frame, ex_blank_frame, ex_blank_frame] init_state) \<noteq> Some ZeroDivisionError"
proof -
  have z: "detect_every (ex_args 0) = 0" and nz: "detect_every (ex_args 2) \<noteq> 0"
    by (simp_all add: ex_args_def)
  note t0 = zero_interval_fails [where a = "ex_args 0" and gblur = ex_gblur
      and reader = ex_reader and f = ex_text_frame and frames = "[ex_blank_frame]"
      and s = init_state]
  note t2 = zero_interval_fails [where a = "ex_args 2" and gblur = ex_gblur
      and reader = ex_reader and frames = "[ex_text_frame, ex_blank_frame, ex_blank_frame]"]
  from z nz t0 t2 show ?thesis
    by blast
qed

text \<open>
  An input for C4: three frames of 640 by 480; the cache then holds the two regions
  detected on the first frame.
\<close>

theorem cached_regions_invariant_witness:
  "width ex_text_frame = 640 \<and> height ex_text_frame = 480 \<and>
   width ex_blank_frame = 640 \<and> height ex_blank_frame = 480 \<and>
   last_boxes (snd (main_loop ex_gblur ex_reader (ex_args 2)
      [ex_text_frame, ex_blank_frame, ex_blank_frame] init_state)) =
     [(100, 100, 200, 150), (0, 400, 50, 479)] \<and>
   list_all (region_ok 640 480)
     (last_boxes (snd (main_loop ex_gblur ex_reader (ex_args 2)
        [ex_text_frame, ex_blank_frame, ex_blank_frame] init_state)))"
proof -
  have shape: "\<forall>f \<in> set [ex_text_frame, ex_blank_frame, ex_blank_frame].
      width f = 640 \<and> height f = 480"
    by (simp add: ex_text_frame_def ex_blank_frame_def)
  let ?F = "[ex_text_frame, ex_blank_frame, ex_blank_frame]"
  note inst = cached_regions_invariant [OF shape, where reader = ex_reader
      and a = "ex_args 2" and gblur = ex_gblur]
  from inst have "\<forall>k \<le> length ?F. list_all (region_ok (int 640) (int 480))
     (last_boxes (snd (main_loop ex_gblur ex_reader (ex_args 2) (take k ?F) init_state)))"
    by blast
  then have "list_all (region_ok (int 640) (int 480))
     (last_boxes (snd (main_loop ex_gblur ex_reader (ex_args 2) (take (length ?F) ?F)
        init_state)))"
    by blast
  then have "list_all (region_ok 640 480)
     (last_boxes (snd (main_loop ex_gblur ex_reader (ex_args 2) ?F init_state)))"
    by (simp only: take_all order_refl of_nat_numeral)
  moreover have "width ex_text_frame = 640 \<and> height ex_text_frame = 480 \<and>
      width ex_blank_frame = 640 \<and> height ex_blank_frame = 480"
    by (simp add: ex_text_frame_def ex_blank_frame_def)
  ultimately show ?thesis
    using ex_run(3) by blast
qed

section \<open>The redactor writes inside the clamped boxes only\<close>

lemma blur_or_black_Cons:
  "blur_or_black gblur f (b # boxes) m =
     blur_or_black gblur (blur_or_black gblur f [b] m) boxes m"
  by (cases b; cases m) (simp_all add: blur_or_black.simps Let_def)

lemma blur_or_black_single_shape:
  "height (blur_or_black gblur f [b] m) = height f"
  "width (blur_or_black gblur f [b] m) = width f"
  "channels (blur_or_black gblur f [b] m) = channels f"
  by (cases b; cases m;
      simp add: blur_or_black.simps Let_def assign_slice_def fill_slice_def)+

lemma blur_or_black_single_outside:
  assumes "\<not> in_slice (clamp (int (height f)) y1) (clamp (int (height f)) y2)
             (clamp (int (width f)) x1) (clamp (int (width f)) x2) y x"
  shows "px (blur_or_black gblur f [(x1, y1, x2, y2)] m) y x c = px f y x c"
  using assms
  by (cases m) (simp_all add: blur_or_black.simps Let_def assign_slice_def fill_slice_def)

lemma blur_or_black_single_black:
  "px (blur_or_black gblur f [(x1, y1, x2, y2)] Black) y x c =
     (if in_slice (clamp (int (height f)) y1) (clamp (int (height f)) y2)
           (clamp (int (width f)) x1) (clamp (int (width f)) x2) y x
      then 0 else px f y x c)"
  by (auto simp: blur_or_black.simps Let_def fill_slice_def in_slice_def)

lemma blur_or_black_shape:
  "height (blur_or_black gblur f boxes m) = height f \<and>
   width (blur_or_black gblur f boxes m) = width f \<and>
   channels (blur_or_black gblur f boxes m) = channels f"
proof (induction boxes arbitrary: f)
  case Nil
  show ?case by (simp add: blur_or_black.simps)
next
  case (Cons b boxes)
  show ?case
    unfolding blur_or_black_Cons [of gblur f b boxes m]
    by (simp add: Cons.IH blur_or_black_single_shape)
qed

lemma blur_or_black_outside:
  assumes "\<not> covered (int (width f)) (int (height f)) boxes y x"
  shows "px (blur_or_black gblur f boxes m) y x c = px f y x c"
  using assms
proof (induction boxes arbitrary: f)
  case Nil
  show ?case by (simp add: blur_or_black.simps)
next
  case (Cons b boxes)
  obtain x1 y1 x2 y2 where b: "b = (x1, y1, x2, y2)"
    by (cases b)
  let ?f1 = "blur_or_black gblur f [b] m"
  from Cons.prems have here: "\<not> in_slice (clamp (int (height f)) y1) (clamp (int (height f)) y2)
             (clamp (int (width f)) x1) (clamp (int (width f)) x2) y x"
    and rest: "\<not> covered (int (width f)) (int (height f)) boxes y x"
    by (simp_all add: covered_def b)
  from rest have "\<not> covered (int (width ?f1)) (int (height ?f1)) boxes y x"
    by (simp add: blur_or_black_single_shape)
  then have "px (blur_or_black gblur ?f1 boxes m) y x c = px ?f1 y x c"
    by (rule Cons.IH)
  also have "\<dots> = px f y x c"
    unfolding b using here by (rule blur_or_black_single_outside)
  finally show ?case
    unfolding blur_or_black_Cons [of gblur f b boxes m] .
qed

lemma blur_or_black_black_px:
  "px (blur_or_black gblur f boxes Black) y x c =
     (if covered (int (width f)) (int (height f)) boxes y x then 0 else px f y x c)"
proof (induction boxes arbitrary: f)
  case Nil
  show ?case by (simp add: blur_or_black.simps covered_def)
next
  case (Cons b boxes)
  obtain x1 y1 x2 y2 where b: "b = (x1, y1, x2, y2)"
    by (cases b)
  let ?f1 = "blur_or_black gblur f [b] Black"
  have "px (blur_or_black gblur ?f1 boxes Black) y x c =
     (if covered (int (width f)) (int (height f)) boxes y x then 0 else px ?f1 y x c)"
    unfolding Cons.IH [of ?f1] by (simp add: blur_or_black_single_shape)
  then show ?case
    unfolding blur_or_black_Cons [of gblur f b boxes Black]
    by (simp add: b blur_or_black_single_black covered_def)
qed

lemma blur_or_black_black_eq:
  "blur_or_black gblur f boxes Black =
     f\<lparr>px := (\<lambda>y x c. if covered (int (width f)) (int (height f)) boxes y x then 0
                       else px f y x c)\<rparr>"
proof -
  have "px (blur_or_black gblur f boxes Black) =
      (\<lambda>y x c. if covered (int (width f)) (int (height f)) boxes y x then 0 else px f y x c)"
    by (intro ext) (rule blur_or_black_black_px)
  then show ?thesis
    using blur_or_black_shape [of gblur f boxes Black]
    by (cases f, cases "blur_or_black gblur f boxes Black") simp
qed

text \<open>
  Claim C8. Redaction in mode \<open>black\<close> is idempotent: for every frame and every list
  of boxes, redacting the redacted frame again with the same boxes gives the same
  frame.
\<close>

theorem black_idempotent:
  "blur_or_black gblur (blur_or_black gblur f boxes Black) boxes Black =
     blur_or_black gblur f boxes Black"
proof -
  let ?P = "\<lambda>y x c. if covered (int (width f)) (int (height f)) boxes y x then 0
                    else px f y x c"
  have once: "blur_or_black gblur f boxes Black = f\<lparr>px := ?P\<rparr>"
    by (rule blur_or_black_black_eq)
  have "blur_or_black gblur (f\<lparr>px := ?P\<rparr>) boxes Black = f\<lparr>px := ?P\<rparr>"
    by (subst blur_or_black_black_eq) (simp cong: if_cong)
  then show ?thesis
    by (simp only: once)
qed

lemma clamp_id: "0 \<le> v \<Longrightarrow> v \<le> n - 1 \<Longrightarrow> clamp n v = v"
  by (simp add: clamp_def)

lemma covered_iff:
  "covered w h boxes y x \<longleftrightarrow>
     (\<exists>(x1, y1, x2, y2) \<in> set boxes.
        in_slice (clamp h y1) (clamp h y2) (clamp w x1) (clamp w x2) y x)"
  by (simp add: covered_def list_ex_iff)

text \<open>
  Claim C6, as the code has it. In mode \<open>black\<close>, for every box of the list that is
  clamped and non-degenerate, every pixel with \<open>x1 \<le> x < x2\<close> and \<open>y1 \<le> y < y2\<close>
  is 0 in every channel of the result. The slices \<open>frame[y1:y2, x1:x2]\<close> exclude their
  upper bounds: redacting that box alone leaves row \<open>y2\<close> and column \<open>x2\<close> as they were.
\<close>

theorem black_fills_region:
  assumes "(x1, y1, x2, y2) \<in> set boxes"
    and "region_ok (int (width f)) (int (height f)) (x1, y1, x2, y2)"
  shows "(\<forall>y x c. y1 \<le> y \<and> y < y2 \<and> x1 \<le> x \<and> x < x2 \<longrightarrow>
            px (blur_or_black gblur f boxes Black) y x c = 0) \<and>
         (\<forall>y x c. y = y2 \<or> x = x2 \<longrightarrow>
            px (blur_or_black gblur f [(x1, y1, x2, y2)] Black) y x c = px f y x c)"
proof -
  let ?w = "int (width f)" and ?h = "int (height f)"
  from assms(2) have cl: "clamp ?w x1 = x1" "clamp ?w x2 = x2" "clamp ?h y1 = y1" "clamp ?h y2 = y2"
    by (simp_all add: region_ok_def clamp_id)
  have inside: "px (blur_or_black gblur f boxes Black) y x c = 0"
    if "y1 \<le> y \<and> y < y2 \<and> x1 \<le> x \<and> x < x2" for y x c
  proof -
    from that have "in_slice (clamp ?h y1) (clamp ?h y2) (clamp ?w x1) (clamp ?w x2) y x"
      by (simp add: cl in_slice_def)
    with assms(1) have "covered ?w ?h boxes y x"
      unfolding covered_iff by blast
    then show ?thesis
      by (simp add: blur_or_black_black_px)
  qed
  have edge: "px (blur_or_black gblur f [(x1, y1, x2, y2)] Black) y x c = px f y x c"
    if "y = y2 \<or> x = x2" for y x c
  proof -
    from that have "\<not> in_slice (clamp ?h y1) (clamp ?h y2) (clamp ?w x1) (clamp ?w x2) y x"
      by (auto simp: cl in_slice_def)
    then show ?thesis
      by (rule blur_or_black_single_outside)
  qed
  from inside edge show ?thesis
    by blast
qed

text \<open>An input for C6: a white 640 by 480 frame and the box \<open>(100, 100, 200, 150)\<close>.\<close>

theorem black_fills_region_witness:
  "(100, 100, 200, 150) \<in> set [(100, 100, 200, 150), (0, 400, 50, 479 :: int)] \<and>
   region_ok (int (width ex_text_frame)) (int (height ex_text_frame)) (100, 100, 200, 150) \<and>
   px (blur_or_black ex_gblur ex_text_frame [(100, 100, 200, 150), (0, 400, 50, 479)] Black)
     149 199 2 = 0 \<and>
   px (blur_or_black ex_gblur ex_text_frame [(100, 100, 200, 150)] Black) 150 200 2 =
     px ex_text_frame 150 200 2"
proof -
  have m: "(100, 100, 200, 150) \<in> set [(100, 100, 200, 150), (0, 400, 50, 479 :: int)]"
    by simp
  have ok: "region_ok (int (width ex_text_frame)) (int (height ex_text_frame))
      (100, 100, 200, 150)"
    by (simp add: region_ok_def ex_text_frame_def)
  note inst = black_fills_region [OF m ok, of ex_gblur]
  from inst have "px (blur_or_black ex_gblur ex_text_frame
      [(100, 100, 200, 150), (0, 400, 50, 479)] Black) 149 199 2 = 0"
    by simp
  moreover from inst have "px (blur_or_black ex_gblur ex_text_frame [(100, 100, 200, 150)] Black)
      150 200 2 = px ex_text_frame 150 200 2"
    by simp
  ultimately show ?thesis
    using m ok by blast
qed

text \<open>
  The claim C6 as stated, with the boundary row and column included, fails: the pixel at
  \<open>x = x2 = 200\<close>, \<open>y = y2 = 150\<close> of that box is not set to 0.
\<close>

theorem black_fills_region_counterexample:
  "region_ok (int (width ex_text_frame)) (int (height ex_text_frame)) (100, 100, 200, 150) \<and>
   (100 :: int) \<le> 200 \<and> (200 :: int) \<le> 200 \<and> (100 :: int) \<le> 150 \<and> (150 :: int) \<le> 150 \<and>
   px (blur_or_black ex_gblur ex_text_frame [(100, 100, 200, 150)] Black) 150 200 0 \<noteq> 0"
  by (simp add: region_ok_def ex_text_frame_def blur_or_black.simps clamp_def fill_slice_def
      in_slice_def)

text \<open>
  Claim C9. For every frame, list of boxes and mode, \<open>blur_or_black\<close> leaves the
  height, the width and the number of channels of the frame as they are, and every
  pixel outside the slice of every clamped box keeps its value. The slices exclude their
  upper bounds, so this covers every pixel outside the closed rectangles as well.
\<close>

theorem redaction_frame_effect:
  "height (blur_or_black gblur f boxes m) = height f \<and>
   width (blur_or_black gblur f boxes m) = width f \<and>
   channels (blur_or_black gblur f boxes m) = channels f \<and>
   (\<forall>y x c.
      (\<forall>(x1, y1, x2, y2) \<in> set boxes.
         \<not> in_slice (clamp (int (height f)) y1) (clamp (int (height f)) y2)
              (clamp (int (width f)) x1) (clamp (int (width f)) x2) y x) \<longrightarrow>
      px (blur_or_black gblur f boxes m) y x c = px f y x c)"
proof (intro conjI allI impI)
  show "height (blur_or_black gblur f boxes m) = height f"
    "width (blur_or_black gblur f boxes m) = width f"
    "channels (blur_or_black gblur f boxes m) = channels f"
    using blur_or_black_shape [of gblur f boxes m] by simp_all
next
  fix y x :: int and c :: nat
  assume "\<forall>(x1, y1, x2, y2) \<in> set boxes.
         \<not> in_slice (clamp (int (height f)) y1) (clamp (int (height f)) y2)
              (clamp (int (width f)) x1) (clamp (int (width f)) x2) y x"
  then have "\<not> covered (int (width f)) (int (height f)) boxes y x"
    unfolding covered_iff by blast
  then show "px (blur_or_black gblur f boxes m) y x c = px f y x c"
    by (rule blur_or_black_outside)
qed

text \<open>An input for C9: the same frame and box in mode \<open>blur\<close>.\<close>

theorem redaction_frame_effect_witness:
  "\<not> in_slice (clamp (int (height ex_text_frame)) 100) (clamp (int (height ex_text_frame)) 150)
       (clamp (int (width ex_text_frame)) 100) (clamp (int (width ex_text_frame)) 200) 150 200 \<and>
   px (blur_or_black ex_gblur ex_text_frame [(100, 100, 200, 150)] Blur) 150 200 1 =
     px ex_text_frame 150 200 1 \<and>
   px (blur_or_black ex_gblur ex_text_frame [(100, 100, 200, 150)] Blur) 149 199 1 = 128 \<and>
   height (blur_or_black ex_gblur ex_text_frame [(100, 100, 200, 150)] Blur) = 480 \<and>
   width (blur_or_black ex_gblur ex_text_frame [(100, 100, 200, 150)] Blur) = 640 \<and>
   channels (blur_or_black ex_gblur ex_text_frame [(100, 100, 200, 150)] Blur) = 3"
proof -
  note inst = redaction_frame_effect [of ex_gblur ex_text_frame "[(100, 100, 200, 150)]" Blur]
  have out: "\<not> in_slice (clamp (int (height ex_text_frame)) 100)
       (clamp (int (height ex_text_frame)) 150)
       (clamp (int (width ex_text_frame)) 100) (clamp (int (width ex_text_frame)) 200) 150 200"
    by (simp add: in_slice_def clamp_def ex_text_frame_def)
  with inst have same: "px (blur_or_black ex_gblur ex_text_frame [(100, 100, 200, 150)] Blur)
      150 200 1 = px ex_text_frame 150 200 1"
    by simp
  have blurred: "px (blur_or_black ex_gblur ex_text_frame [(100, 100, 200, 150)] Blur)
      149 199 1 = 128"
    by (simp add: blur_or_black.simps Let_def clamp_def assign_slice_def in_slice_def
        ex_text_frame_def ex_gblur_def)
  from inst have "height (blur_or_black ex_gblur ex_text_frame [(100, 100, 200, 150)] Blur) = 480"
    "width (blur_or_black ex_gblur ex_text_frame [(100, 100, 200, 150)] Blur) = 640"
    "channels (blur_or_black ex_gblur ex_text_frame [(100, 100, 200, 150)] Blur) = 3"
    by (simp_all add: ex_text_frame_def)
  with out same blurred show ?thesis
    by blast
qed

section \<open>The audio remux renames or deletes the artifact\<close>

lemma mux_audio_fallback:
  assumes "run (ffmpeg_cmd i v out) (files wd) = (Some e, fs)"
    and "e = FileNotFoundError \<or> e = CalledProcessError"
  shows "mux_audio run replace unlink i v out wd =
     (fst (replace v out fs),
      wd\<lparr>files := snd (replace v out fs),
         printed := printed wd @ [if e = FileNotFoundError then Ffmpeg_not_found else Ffmpeg_failed],
         fs_calls := fs_calls wd @ [Replace v out]\<rparr>)"
  using assms by (auto simp: mux_audio_def Let_def split: prod.splits)

lemma mux_audio_success:
  assumes "run (ffmpeg_cmd i v out) (files wd) = (None, fs)"
  shows "mux_audio run replace unlink i v out wd =
     ((case fst (unlink v fs) of
         None \<Rightarrow> None
       | Some x \<Rightarrow> if is_OSError x then None else Some x),
      wd\<lparr>files := snd (unlink v fs), fs_calls := fs_calls wd @ [Unlink v]\<rparr>)"
  using assms
  by (cases "unlink v fs"; cases "fst (unlink v fs)") (auto simp: mux_audio_def Let_def)

lemma mux_audio_other:
  assumes "run (ffmpeg_cmd i v out) (files wd) = (Some e, fs)"
    and "e \<noteq> FileNotFoundError" "e \<noteq> CalledProcessError"
  shows "mux_audio run replace unlink i v out wd = (Some e, wd\<lparr>files := fs\<rparr>)"
  using assms by (cases e) (simp_all add: mux_audio_def Let_def)

text \<open>
  Claim C3, as the code has it. \<open>mux_audio\<close> makes at most one call on the artifact.
  If the tool is missing or exits with a non-zero status, a message is printed and the
  rename of the artifact to the output path is attempted: \<open>mux_audio\<close> ends as that
  rename ends, without an exception when it succeeds and with its exception when it
  raises, and the files are as the rename leaves them. If the tool succeeds, the
  deletion of the artifact is attempted, the files are as the deletion leaves them, and
  an \<open>OSError\<close> of the deletion is swallowed. Any other exception of the tool
  propagates with no call on the artifact. The artifact is never both renamed and
  deleted.
\<close>

theorem mux_audio_actions:
  assumes "run (ffmpeg_cmd i v out) (files wd) = (r, fs)"
    and "mux_audio run replace unlink i v out wd = (e, wd')"
  shows "(r = Some FileNotFoundError \<or> r = Some CalledProcessError \<longrightarrow>
            fs_calls wd' = fs_calls wd @ [Replace v out] \<and>
            printed wd' = printed wd @
              [if r = Some FileNotFoundError then Ffmpeg_not_found else Ffmpeg_failed] \<and>
            e = fst (replace v out fs) \<and> files wd' = snd (replace v out fs)) \<and>
         (r = None \<longrightarrow>
            fs_calls wd' = fs_calls wd @ [Unlink v] \<and> printed wd' = printed wd \<and>
            files wd' = snd (unlink v fs) \<and>
            (fst (unlink v fs) = None \<longrightarrow> e = None) \<and>
            (\<forall>x. fst (unlink v fs) = Some x \<longrightarrow> e = (if is_OSError x then None else Some x))) \<and>
         (r \<noteq> None \<and> r \<noteq> Some FileNotFoundError \<and> r \<noteq> Some CalledProcessError \<longrightarrow>
            e = r \<and> fs_calls wd' = fs_calls wd \<and> printed wd' = printed wd \<and> files wd' = fs) \<and>
         \<not> (Replace v out \<in> set (drop (length (fs_calls wd)) (fs_calls wd')) \<and>
            Unlink v \<in> set (drop (length (fs_calls wd)) (fs_calls wd')))"
proof (cases r)
  case None
  from assms(1) have "run (ffmpeg_cmd i v out) (files wd) = (None, fs)"
    by (simp add: None)
  then have "mux_audio run replace unlink i v out wd =
     ((case fst (unlink v fs) of
         None \<Rightarrow> None
       | Some x \<Rightarrow> if is_OSError x then None else Some x),
      wd\<lparr>files := snd (unlink v fs), fs_calls := fs_calls wd @ [Unlink v]\<rparr>)"
    by (rule mux_audio_success)
  with assms(2)
  have "e = (case fst (unlink v fs) of
         None \<Rightarrow> None
       | Some x \<Rightarrow> if is_OSError x then None else Some x)"
    "wd' = wd\<lparr>files := snd (unlink v fs), fs_calls := fs_calls wd @ [Unlink v]\<rparr>"
    by simp_all
  with None show ?thesis
    by simp
next
  case (Some err)
  from assms(1) have run: "run (ffmpeg_cmd i v out) (files wd) = (Some err, fs)"
    by (simp add: Some)
  show ?thesis
  proof (cases "err = FileNotFoundError \<or> err = CalledProcessError")
    case True
    from run True have "mux_audio run replace unlink i v out wd =
     (fst (replace v out fs),
      wd\<lparr>files := snd (replace v out fs),
         printed := printed wd @
           [if err = FileNotFoundError then Ffmpeg_not_found else Ffmpeg_failed],
         fs_calls := fs_calls wd @ [Replace v out]\<rparr>)"
      by (rule mux_audio_fallback)
    with assms(2)
    have e: "e = fst (replace v out fs)"
      and wd': "wd' = wd\<lparr>files := snd (replace v out fs),
         printed := printed wd @
           [if err = FileNotFoundError then Ffmpeg_not_found else Ffmpeg_failed],
         fs_calls := fs_calls wd @ [Replace v out]\<rparr>"
      by simp_all
    show ?thesis
      unfolding e wd' Some using True by auto
  next
    case False
    then have "err \<noteq> FileNotFoundError" "err \<noteq> CalledProcessError"
      by simp_all
    with run have "mux_audio run replace unlink i v out wd = (Some err, wd\<lparr>files := fs\<rparr>)"
      by (rule mux_audio_other)
    with assms(2)
    have "e = Some err" "wd' = wd\<lparr>files := fs\<rparr>"
      by simp_all
    with Some False show ?thesis
      by simp
  qed
qed

text \<open>
  An input for C3: the binary is missing and the rename succeeds, so the artifact
  becomes the final output; the tool succeeds, so the artifact is deleted; and the tool
  succeeds and the deletion is refused, so the artifact stays and nothing is raised.
\<close>

theorem mux_audio_actions_witness:
  "ex_missing (ffmpeg_cmd ''in.mp4'' ''out_video_only.mp4'' ''out.mp4'') ex_files =
     (Some FileNotFoundError, ex_files) \<and>
   fst (mux_audio ex_missing ex_replace ex_unlink ''in.mp4'' ''out_video_only.mp4'' ''out.mp4''
     (ex_world ex_files)) = None \<and>
   fs_calls (snd (mux_audio ex_missing ex_replace ex_unlink ''in.mp4'' ''out_video_only.mp4''
     ''out.mp4'' (ex_world ex_files))) = [Replace ''out_video_only.mp4'' ''out.mp4''] \<and>
   printed (snd (mux_audio ex_missing ex_replace ex_unlink ''in.mp4'' ''out_video_only.mp4''
     ''out.mp4'' (ex_world ex_files))) = [Ffmpeg_not_found] \<and>
   files (snd (mux_audio ex_missing ex_replace ex_unlink ''in.mp4'' ''out_video_only.mp4''
     ''out.mp4'' (ex_world ex_files))) ''out.mp4'' = Some (File ''redacted'') \<and>
   files (snd (mux_audio ex_missing ex_replace ex_unlink ''in.mp4'' ''out_video_only.mp4''
     ''out.mp4'' (ex_world ex_files))) ''out_video_only.mp4'' = None \<and>
   ex_muxes (ffmpeg_cmd ''in.mp4'' ''out_video_only.mp4'' ''out.mp4'') ex_files =
     (None, ex_files(''out.mp4'' \<mapsto> File ''muxed'')) \<and>
   fst (mux_audio ex_muxes ex_replace ex_unlink ''in.mp4'' ''out_video_only.mp4'' ''out.mp4''
     (ex_world ex_files)) = None \<and>
   fs_calls (snd (mux_audio ex_muxes ex_replace ex_unlink ''in.mp4'' ''out_video_only.mp4''
     ''out.mp4'' (ex_world ex_files))) = [Unlink ''out_video_only.mp4''] \<and>
   files (snd (mux_audio ex_muxes ex_replace ex_unlink ''in.mp4'' ''out_video_only.mp4''
     ''out.mp4'' (ex_world ex_files))) ''out.mp4'' = Some (File ''muxed'') \<and>
   files (snd (mux_audio ex_muxes ex_replace ex_unlink ''in.mp4'' ''out_video_only.mp4''
     ''out.mp4'' (ex_world ex_files))) ''out_video_only.mp4'' = None \<and>
   fst (ex_unlink_denied ''out_video_only.mp4'' (ex_files(''out.mp4'' \<mapsto> File ''muxed''))) =
     Some PermissionError \<and>
   fst (mux_audio ex_muxes ex_replace ex_unlink_denied ''in.mp4'' ''out_video_only.mp4''
     ''out.mp4'' (ex_world ex_files)) = None \<and>
   fs_calls (snd (mux_audio ex_muxes ex_replace ex_unlink_denied ''in.mp4''
     ''out_video_only.mp4'' ''out.mp4'' (ex_world ex_files))) = [Unlink ''out_video_only.mp4''] \<and>
   files (snd (mux_audio ex_muxes ex_replace ex_unlink_denied ''in.mp4''
     ''out_video_only.mp4'' ''out.mp4'' (ex_world ex_files))) ''out_video_only.mp4'' =
     Some (File ''redacted'')"
proof -
  let ?i = "''in.mp4''" and ?v = "''out_video_only.mp4''" and ?out = "''out.mp4''"
  let ?m1 = "mux_audio ex_missing ex_replace ex_unlink ?i ?v ?out (ex_world ex_files)"
  let ?m2 = "mux_audio ex_muxes ex_replace ex_unlink ?i ?v ?out (ex_world ex_files)"
  let ?m3 = "mux_audio ex_muxes ex_replace ex_unlink_denied ?i ?v ?out (ex_world ex_files)"
  have r1: "ex_missing (ffmpeg_cmd ?i ?v ?out) (files (ex_world ex_files)) =
      (Some FileNotFoundError, ex_files)"
    by (simp add: ex_missing_def ex_world_def)
  have r2: "ex_muxes (ffmpeg_cmd ?i ?v ?out) (files (ex_world ex_files)) =
      (None, ex_files(?out \<mapsto> File ''muxed''))"
    by (simp add: ex_muxes_def ex_world_def ffmpeg_cmd_def)
  have m1: "?m1 = (fst ?m1, snd ?m1)" and m2: "?m2 = (fst ?m2, snd ?m2)"
    and m3: "?m3 = (fst ?m3, snd ?m3)"
    by simp_all
  note t1 = mux_audio_actions [where run = ex_missing and replace = ex_replace
      and unlink = ex_unlink, OF r1 m1]
  note t2 = mux_audio_actions [where run = ex_muxes and replace = ex_replace
      and unlink = ex_unlink, OF r2 m2]
  have a: "fst ?m1 = None" "fs_calls (snd ?m1) = [Replace ?v ?out]"
    "printed (snd ?m1) = [Ffmpeg_not_found]"
    "files (snd ?m1) ?out = Some (File ''redacted'')" "files (snd ?m1) ?v = None"
    using t1 by (simp_all add: ex_files_def ex_world_def ex_replace_def)
  have b: "fst ?m2 = None" "fs_calls (snd ?m2) = [Unlink ?v]"
    "files (snd ?m2) ?out = Some (File ''muxed'')" "files (snd ?m2) ?v = None"
    using t2 by (simp_all add: ex_files_def ex_world_def ex_unlink_def)
  note t3 = mux_audio_actions [where run = ex_muxes and replace = ex_replace
      and unlink = ex_unlink_denied, OF r2 m3]
  have d: "fst (ex_unlink_denied ?v (ex_files(?out \<mapsto> File ''muxed''))) = Some PermissionError"
    by (simp add: ex_unlink_denied_def)
  have c: "fst ?m3 = None" "fs_calls (snd ?m3) = [Unlink ?v]"
    "files (snd ?m3) ?v = Some (File ''redacted'')"
    using t3 d by (simp_all add: ex_files_def ex_world_def ex_unlink_denied_def)
  from r1 r2 a b c d show ?thesis
    by (simp add: ex_world_def)
qed

text \<open>
  The claim C3 as stated fails where the output path is a directory: the tool exits with
  a non-zero status, the artifact exists, \<open>replace\<close> raises inside the \<open>except\<close>
  handler, and the exception escapes \<open>mux_audio\<close> with the artifact not renamed.
\<close>

theorem mux_audio_actions_counterexample:
  "ex_files_dir ''out_video_only.mp4'' = Some (File ''redacted'') \<and>
   ex_fails (ffmpeg_cmd ''in.mp4'' ''out_video_only.mp4'' ''out.mp4'') ex_files_dir =
     (Some CalledProcessError, ex_files_dir) \<and>
   fst (mux_audio ex_fails ex_replace ex_unlink ''in.mp4'' ''out_video_only.mp4'' ''out.mp4''
         (ex_world ex_files_dir)) = Some IsADirectoryError \<and>
   files (snd (mux_audio ex_fails ex_replace ex_unlink ''in.mp4'' ''out_video_only.mp4''
         ''out.mp4'' (ex_world ex_files_dir))) ''out_video_only.mp4'' =
     Some (File ''redacted'') \<and>
   files (snd (mux_audio ex_fails ex_replace ex_unlink ''in.mp4'' ''out_video_only.mp4''
         ''out.mp4'' (ex_world ex_files_dir))) ''out.mp4'' = Some Directory"
  by (simp add: mux_audio_def ex_fails_def ex_world_def ex_files_dir_def ex_replace_def Let_def)

end
